theory Spec2Isabelle
  imports Complex_Main "HOL-Library.Sublist" "HOL-Library.Multiset" "HOL-Library.Product_Lexorder"
    "HOL-Library.Log_Nat"
begin

chapter \<open>The product catalogue: list page and detail page\<close>

text \<open>
  A shallow embedding of the two scripts of the catalogue, \<^verbatim>\<open>js/main.js\<close> and
  \<^verbatim>\<open>js/product.js\<close>: the values and coercions of JavaScript they rely on, the product record,
  the rendering of cards and of the detail markup, filtering and sorting, the loader with its
  retries, the detail lookup and the theme toggle; then the properties of the specification,
  each stated on these definitions.
\<close>

section \<open>JavaScript values and the coercions the catalogue pages apply to them\<close>

text \<open>
  The two pages (\<^verbatim>\<open>js/main.js\<close>, the list page, and \<^verbatim>\<open>js/product.js\<close>, the detail page)
  read product records from \<^verbatim>\<open>data/products.json\<close> and never check the type of a field:
  every field passes through JavaScript's own coercions (\<^verbatim>\<open>String(v)\<close>, \<^verbatim>\<open>Number(v)\<close>,
  truthiness in \<^verbatim>\<open>v || d\<close> and \<^verbatim>\<open>if (v)\<close>, template literals). A field is therefore a
  JavaScript value, and the coercions are functions on values.

  Range of the model.
  \<^item> A field holds \<^verbatim>\<open>undefined\<close> (the property is absent), \<^verbatim>\<open>null\<close>, a boolean, a number,
    a string or an array of such values. A nested object as a field value is not modelled.
  \<^item> A number field is given by the value its literal has in the JSON file, a rational; the
    pages see the IEEE-754 double nearest to it. A number the pages compute is a finite
    double (as the rational it is equal to), \<^verbatim>\<open>NaN\<close> or one of the two infinities. The sign of
    a zero is not modelled (a zero divisor is taken as \<^verbatim>\<open>+0\<close>).
  \<^item> A string is well-formed Unicode text, carried as the list of its UTF-8 bytes: a character
    of the model is one byte. A string with an unpaired surrogate is not modelled.
\<close>

datatype jsval =
    JUndefined
  | JNull
  | JBool bool
  | JNum rat
  | JStr string
  | JArr "jsval list"

datatype jsnum = Fin rat | NaN | PInf | NInf

subsection \<open>Double-precision numbers\<close>

text \<open>
  A JavaScript number is an IEEE-754 binary64 value. \<open>fl x\<close> is the double nearest to the
  rational \<open>x\<close>: a significand of 53 bits, a tie going to the even significand, exponents
  down to \<open>-1074\<close> (gradual underflow to zero), and an infinity for a magnitude that rounds to
  \<open>2\<^sup>1\<^sup>0\<^sup>2\<^sup>4\<close> or more. \<^verbatim>\<open>JSON.parse\<close> reads a number literal this way, and every arithmetic
  operator returns the exact result rounded this way.
\<close>

function pow2 :: "int \<Rightarrow> rat" where
  "pow2 e =
     (if e = 0 then 1
      else if e < 0 then 1 / pow2 (- e)
      else if even e then (let h = pow2 (e div 2) in h * h)
      else 2 * pow2 (e - 1))"
  by pat_completeness auto
termination
  by (relation "measure (\<lambda>e. if e < 0 then nat (2 * \<bar>e\<bar> + 1) else nat (2 * e))") auto

declare pow2.simps [simp del]

text \<open>Ten to an integer power, as a rational.\<close>

definition pow10 :: "int \<Rightarrow> rat" where
  "pow10 e = (if 0 \<le> e then 10 ^ nat e else 1 / 10 ^ nat (- e))"

text \<open>The nearest integer, a tie going to the even one.\<close>

definition round_even :: "rat \<Rightarrow> int" where
  "round_even q =
     (let f = \<lfloor>q\<rfloor>;
          d = q - of_int f
      in if d < 1 / 2 then f else if 1 / 2 < d then f + 1 else if even f then f else f + 1)"

text \<open>The binary exponent of a positive rational: the \<open>E\<close> with \<open>2\<^sup>E \<le> x < 2\<^sup>E\<^sup>+\<^sup>1\<close>.\<close>

definition ilog2 :: "rat \<Rightarrow> int" where
  "ilog2 x =
     (let (p, q) = quotient_of x;
          e0 = bitlen p - bitlen q
      in if pow2 e0 \<le> x then e0 else e0 - 1)"

definition fl :: "rat \<Rightarrow> jsnum" where
  "fl x =
     (if x = 0 then Fin 0
      else (let a = \<bar>x\<bar>;
                E = ilog2 a
            in if 1023 < E then (if x < 0 then NInf else PInf)
               else (let e = max (E - 52) (- 1074);
                         n = round_even (a / pow2 e)
                     in if E = 1023 \<and> n = 9007199254740992 then (if x < 0 then NInf else PInf)
                        else Fin ((if x < 0 then - 1 else 1) * of_int n * pow2 e))))"

subsection \<open>Strings\<close>

text \<open>
  The white space and the line terminators of ECMAScript, each as the UTF-8 bytes of its code
  point: TAB, LF, VT, FF, CR, SP, U+00A0, U+1680, U+2000 to U+200A, U+2028, U+2029, U+202F,
  U+205F, U+3000 and U+FEFF.
\<close>

definition white_space :: "string list" where
  "white_space =
     [[CHR 0x09], [CHR 0x0A], [CHR 0x0B], [CHR 0x0C], [CHR 0x0D], [CHR 0x20],
      [CHR 0xC2, CHR 0xA0],
      [CHR 0xE1, CHR 0x9A, CHR 0x80],
      [CHR 0xE2, CHR 0x80, CHR 0x80], [CHR 0xE2, CHR 0x80, CHR 0x81],
      [CHR 0xE2, CHR 0x80, CHR 0x82], [CHR 0xE2, CHR 0x80, CHR 0x83],
      [CHR 0xE2, CHR 0x80, CHR 0x84], [CHR 0xE2, CHR 0x80, CHR 0x85],
      [CHR 0xE2, CHR 0x80, CHR 0x86], [CHR 0xE2, CHR 0x80, CHR 0x87],
      [CHR 0xE2, CHR 0x80, CHR 0x88], [CHR 0xE2, CHR 0x80, CHR 0x89],
      [CHR 0xE2, CHR 0x80, CHR 0x8A],
      [CHR 0xE2, CHR 0x80, CHR 0xA8], [CHR 0xE2, CHR 0x80, CHR 0xA9],
      [CHR 0xE2, CHR 0x80, CHR 0xAF],
      [CHR 0xE2, CHR 0x81, CHR 0x9F],
      [CHR 0xE3, CHR 0x80, CHR 0x80],
      [CHR 0xEF, CHR 0xBB, CHR 0xBF]]"

text \<open>The length of the token a string begins with, 0 when it begins with none of them.\<close>

definition leading :: "string list \<Rightarrow> string \<Rightarrow> nat" where
  "leading ts s =
     (case find (\<lambda>t. prefix t s) ts of None \<Rightarrow> 0 | Some t \<Rightarrow> length t)"

text \<open>Removing from the front of a string every leading occurrence of one of the tokens.\<close>

function strip :: "string list \<Rightarrow> string \<Rightarrow> string" where
  "strip ts s = (if leading ts s = 0 then s else strip ts (drop (leading ts s) s))"
  by pat_completeness auto
termination
proof (relation "measure (\<lambda>(ts, s). length s)")
  show "wf (measure (\<lambda>(ts, s). length s))" by simp
next
  fix ts :: "string list" and s :: string
  assume n: "leading ts s \<noteq> 0"
  then obtain t where "find (\<lambda>t. prefix t s) ts = Some t" and l: "leading ts s = length t"
    unfolding leading_def by (cases "find (\<lambda>t. prefix t s) ts") auto
  then have "prefix t s" by (auto simp: find_Some_iff)
  then have "length t \<le> length s" by (rule prefix_length_le)
  then have "length (drop (leading ts s) s) < length s"
    using n l by (simp only: length_drop)
  then show "((ts, drop (leading ts s) s), (ts, s)) \<in> measure (\<lambda>(ts, s). length s)" by simp
qed

declare strip.simps [simp del]

text \<open>
  \<^verbatim>\<open>s.trim()\<close>: the white space at both ends goes. In UTF-8 the bytes of a code point at the
  end of a text are a suffix of the text, so the end is trimmed on the reversed bytes.
\<close>

definition trim :: "string \<Rightarrow> string" where
  "trim s = rev (strip (map rev white_space) (rev (strip white_space s)))"

text \<open>\<^verbatim>\<open>s.includes(q)\<close>: \<open>q\<close> occurs in \<open>s\<close> as a contiguous run of characters.\<close>

definition includes_str :: "string \<Rightarrow> string \<Rightarrow> bool" where
  "includes_str s q = sublist q s"

fun join :: "string \<Rightarrow> string list \<Rightarrow> string" where
  "join sep [] = []"
| "join sep [x] = x"
| "join sep (x # y # ys) = x @ sep @ join sep (y # ys)"

subsection \<open>Numbers to strings\<close>

definition digit_char :: "int \<Rightarrow> char" where
  "digit_char d = char_of (48 + d)"

text \<open>The decimal digits of a number that is not negative.\<close>

function decimal_digits :: "int \<Rightarrow> string" where
  "decimal_digits n =
     (if n < 10 then [digit_char n] else decimal_digits (n div 10) @ [digit_char (n mod 10)])"
  by pat_completeness auto
termination
  by (relation "measure nat") auto

declare decimal_digits.simps [simp del]

text \<open>
  The decimal exponent of a positive rational: the \<open>n\<close> with \<open>10\<^sup>n\<^sup>-\<^sup>1 \<le> x < 10\<^sup>n\<close>. Below 1 it
  is found by counting the zeros after the point, of which a double has at most 323.
\<close>

fun small_exponent :: "nat \<Rightarrow> rat \<Rightarrow> int" where
  "small_exponent 0 x = 0"
| "small_exponent (Suc k) x = (if 1 \<le> x * 10 then 0 else small_exponent k (x * 10) - 1)"

definition decimal_exponent :: "rat \<Rightarrow> int" where
  "decimal_exponent x =
     (if 1 \<le> x then int (length (decimal_digits \<lfloor>x\<rfloor>)) else small_exponent 330 x)"

text \<open>
  The digits \<^verbatim>\<open>Number::toString\<close> prints for a positive double \<open>x\<close>: the integer \<open>s\<close> of the
  fewest digits \<open>k\<close> for which \<open>s \<times> 10\<^sup>n\<^sup>-\<^sup>k\<close> reads back as \<open>x\<close>, the one nearest to \<open>x\<close> when two
  do. Seventeen digits identify every double.
\<close>

fun shortest_digits :: "nat \<Rightarrow> int \<Rightarrow> rat \<Rightarrow> int \<Rightarrow> int \<times> int" where
  "shortest_digits 0 k x n = (round_even (x / pow10 (n - k)), n)"
| "shortest_digits (Suc f) k x n =
     (let u = pow10 (n - k);
          lo = \<lfloor>x / u\<rfloor>;
          hi = lo + 1;
          ok_lo = (fl (of_int lo * u) = Fin x);
          ok_hi = (fl (of_int hi * u) = Fin x);
          dl = x - of_int lo * u;
          dh = of_int hi * u - x;
          s = (if ok_lo \<and> ok_hi
               then (if dl < dh then lo else if dh < dl then hi else if even lo then lo else hi)
               else if ok_lo then lo else hi)
      in if ok_lo \<or> ok_hi
         then (if s = 10 ^ nat k then (s div 10, n + 1) else (s, n))
         else shortest_digits f (k + 1) x n)"

text \<open>
  \<^verbatim>\<open>Number::toString\<close> of a finite double: positional notation for a magnitude from \<open>10\<^sup>-\<^sup>6\<close> up
  to \<open>10\<^sup>2\<^sup>1\<close>, exponent notation outside that range.
\<close>

definition NumberToString :: "rat \<Rightarrow> string" where
  "NumberToString r =
     (if r = 0 then ''0''
      else (let (s, n) = shortest_digits 17 1 \<bar>r\<bar> (decimal_exponent \<bar>r\<bar>);
                ds = decimal_digits s;
                k = int (length ds);
                body =
                  (if k \<le> n \<and> n \<le> 21 then ds @ replicate (nat (n - k)) (CHR ''0'')
                   else if 0 < n \<and> n \<le> 21 then take (nat n) ds @ ''.'' @ drop (nat n) ds
                   else if - 6 < n \<and> n \<le> 0 then ''0.'' @ replicate (nat (- n)) (CHR ''0'') @ ds
                   else (let ex = (if n - 1 < 0 then ''-'' else ''+'') @ decimal_digits \<bar>n - 1\<bar>
                         in if k = 1 then ds @ ''e'' @ ex
                            else take 1 ds @ ''.'' @ drop 1 ds @ ''e'' @ ex))
            in (if r < 0 then ''-'' else '''') @ body))"

definition jsnum_to_string :: "jsnum \<Rightarrow> string" where
  "jsnum_to_string v =
     (case v of Fin r \<Rightarrow> NumberToString r | NaN \<Rightarrow> ''NaN''
      | PInf \<Rightarrow> ''Infinity'' | NInf \<Rightarrow> ''-Infinity'')"

subsection \<open>Strings to numbers\<close>

definition is_digit :: "char \<Rightarrow> bool" where
  "is_digit c = (48 \<le> (of_char c :: int) \<and> (of_char c :: int) \<le> 57)"

definition digits_value :: "string \<Rightarrow> int" where
  "digits_value s = foldl (\<lambda>n c. 10 * n + ((of_char c :: int) - 48)) 0 s"

text \<open>The exponent part of a decimal literal: empty, or \<^verbatim>\<open>e\<close>/\<^verbatim>\<open>E\<close>, a sign and digits.\<close>

definition exponent_part :: "string \<Rightarrow> int option" where
  "exponent_part s =
     (case s of
        [] \<Rightarrow> Some 0
      | c # t \<Rightarrow>
          if c = CHR ''e'' \<or> c = CHR ''E'' then
            (let (neg, ds) = (case t of
                                [] \<Rightarrow> (False, [])
                              | x # u \<Rightarrow> if x = CHR ''-'' then (True, u)
                                         else if x = CHR ''+'' then (False, u) else (False, t))
             in if ds \<noteq> [] \<and> list_all is_digit ds
                then Some (if neg then - digits_value ds else digits_value ds)
                else None)
          else None)"

text \<open>An unsigned decimal literal: \<^verbatim>\<open>12\<close>, \<^verbatim>\<open>12.\<close>, \<^verbatim>\<open>12.5\<close>, \<^verbatim>\<open>.5\<close>, each with an optional exponent.\<close>

definition unsigned_decimal :: "string \<Rightarrow> rat option" where
  "unsigned_decimal s =
     (let ip = takeWhile is_digit s;
          r1 = dropWhile is_digit s;
          fp = (case r1 of [] \<Rightarrow> [] | c # t \<Rightarrow> if c = CHR ''.'' then takeWhile is_digit t else []);
          r2 = (case r1 of [] \<Rightarrow> [] | c # t \<Rightarrow> if c = CHR ''.'' then dropWhile is_digit t else r1)
      in if ip = [] \<and> fp = [] then None
         else (case exponent_part r2 of
                 None \<Rightarrow> None
               | Some e \<Rightarrow>
                   Some ((of_int (digits_value ip) + of_int (digits_value fp) / 10 ^ length fp)
                         * pow10 e)))"

text \<open>The prefixed integer literals \<^verbatim>\<open>0x\<close>, \<^verbatim>\<open>0o\<close> and \<^verbatim>\<open>0b\<close>, which take no sign.\<close>

definition radix_digit :: "char \<Rightarrow> int option" where
  "radix_digit c =
     (let n = (of_char c :: int)
      in if 48 \<le> n \<and> n \<le> 57 then Some (n - 48)
         else if 97 \<le> n \<and> n \<le> 102 then Some (n - 87)
         else if 65 \<le> n \<and> n \<le> 70 then Some (n - 55)
         else None)"

definition radix_value :: "int \<Rightarrow> string \<Rightarrow> int option" where
  "radix_value b s =
     (if s \<noteq> [] \<and> list_all (\<lambda>c. case radix_digit c of None \<Rightarrow> False | Some d \<Rightarrow> d < b) s
      then Some (foldl (\<lambda>n c. b * n + (case radix_digit c of None \<Rightarrow> 0 | Some d \<Rightarrow> d)) 0 s)
      else None)"

definition prefixed_literal :: "string \<Rightarrow> int option" where
  "prefixed_literal s =
     (case s of
        c # x # t \<Rightarrow>
          if c \<noteq> CHR ''0'' then None
          else if x = CHR ''x'' \<or> x = CHR ''X'' then radix_value 16 t
          else if x = CHR ''o'' \<or> x = CHR ''O'' then radix_value 8 t
          else if x = CHR ''b'' \<or> x = CHR ''B'' then radix_value 2 t
          else None
      | _ \<Rightarrow> None)"

text \<open>
  \<^verbatim>\<open>StringToNumber\<close>: the string is trimmed; the empty string is 0; a prefixed literal is
  its value; \<^verbatim>\<open>Infinity\<close> and a decimal literal may carry a sign; anything else is \<^verbatim>\<open>NaN\<close>.
  The value of a literal is rounded to a double.
\<close>

definition StringToNumber :: "string \<Rightarrow> jsnum" where
  "StringToNumber s =
     (let t = trim s;
          neg = (t \<noteq> [] \<and> hd t = CHR ''-'');
          u = (if t \<noteq> [] \<and> (hd t = CHR ''-'' \<or> hd t = CHR ''+'') then tl t else t)
      in if t = [] then Fin 0
         else (case prefixed_literal t of
                 Some n \<Rightarrow> fl (of_int n)
               | None \<Rightarrow>
                   if u = ''Infinity'' then (if neg then NInf else PInf)
                   else (case unsigned_decimal u of
                           None \<Rightarrow> NaN
                         | Some r \<Rightarrow> fl (if neg then - r else r))))"

subsection \<open>The coercions\<close>

fun ToBoolean :: "jsval \<Rightarrow> bool" where
  "ToBoolean JUndefined = False"
| "ToBoolean JNull = False"
| "ToBoolean (JBool b) = b"
| "ToBoolean (JNum r) = (fl r \<noteq> Fin 0)"
| "ToBoolean (JStr s) = (s \<noteq> [])"
| "ToBoolean (JArr xs) = True"

text \<open>
  \<^verbatim>\<open>String(v)\<close> and a template literal's \<^verbatim>\<open>${v}\<close>. An array prints its elements joined by
  commas, an \<^verbatim>\<open>undefined\<close> or \<^verbatim>\<open>null\<close> element as the empty string.
\<close>

fun ToString :: "jsval \<Rightarrow> string" where
  "ToString JUndefined = ''undefined''"
| "ToString JNull = ''null''"
| "ToString (JBool b) = (if b then ''true'' else ''false'')"
| "ToString (JNum r) = jsnum_to_string (fl r)"
| "ToString (JStr s) = s"
| "ToString (JArr xs) =
     join '','' (map (\<lambda>x. if x = JUndefined \<or> x = JNull then [] else ToString x) xs)"

fun ToNumber :: "jsval \<Rightarrow> jsnum" where
  "ToNumber JUndefined = NaN"
| "ToNumber JNull = Fin 0"
| "ToNumber (JBool b) = Fin (if b then 1 else 0)"
| "ToNumber (JNum r) = fl r"
| "ToNumber (JStr s) = StringToNumber s"
| "ToNumber (JArr xs) = StringToNumber (ToString (JArr xs))"

text \<open>\<^verbatim>\<open>a || b\<close>: the left operand when it is truthy, the right one otherwise.\<close>

definition js_or :: "jsval \<Rightarrow> jsval \<Rightarrow> jsval" where
  "js_or a b = (if ToBoolean a then a else b)"

subsection \<open>Arithmetic on numbers\<close>

fun num_sub :: "jsnum \<Rightarrow> jsnum \<Rightarrow> jsnum" where
  "num_sub (Fin a) (Fin b) = fl (a - b)"
| "num_sub NaN _ = NaN"
| "num_sub _ NaN = NaN"
| "num_sub PInf PInf = NaN"
| "num_sub NInf NInf = NaN"
| "num_sub PInf _ = PInf"
| "num_sub NInf _ = NInf"
| "num_sub (Fin a) PInf = NInf"
| "num_sub (Fin a) NInf = PInf"

fun num_div :: "jsnum \<Rightarrow> jsnum \<Rightarrow> jsnum" where
  "num_div (Fin a) (Fin b) =
     (if b \<noteq> 0 then fl (a / b) else if a = 0 then NaN else if 0 < a then PInf else NInf)"
| "num_div NaN _ = NaN"
| "num_div _ NaN = NaN"
| "num_div (Fin a) PInf = Fin 0"
| "num_div (Fin a) NInf = Fin 0"
| "num_div PInf (Fin b) = (if 0 \<le> b then PInf else NInf)"
| "num_div NInf (Fin b) = (if 0 \<le> b then NInf else PInf)"
| "num_div PInf PInf = NaN"
| "num_div PInf NInf = NaN"
| "num_div NInf PInf = NaN"
| "num_div NInf NInf = NaN"

fun num_mul :: "jsnum \<Rightarrow> jsnum \<Rightarrow> jsnum" where
  "num_mul (Fin a) (Fin b) = fl (a * b)"
| "num_mul NaN _ = NaN"
| "num_mul _ NaN = NaN"
| "num_mul PInf (Fin b) = (if b = 0 then NaN else if 0 < b then PInf else NInf)"
| "num_mul NInf (Fin b) = (if b = 0 then NaN else if 0 < b then NInf else PInf)"
| "num_mul (Fin a) PInf = (if a = 0 then NaN else if 0 < a then PInf else NInf)"
| "num_mul (Fin a) NInf = (if a = 0 then NaN else if 0 < a then NInf else PInf)"
| "num_mul PInf PInf = PInf"
| "num_mul NInf NInf = PInf"
| "num_mul PInf NInf = NInf"
| "num_mul NInf PInf = NInf"

text \<open>\<^verbatim>\<open>Math.round\<close>: the nearest integer, a tie going up: \<open>\<lfloor>x + 1/2\<rfloor>\<close>.\<close>

fun Math_round :: "jsnum \<Rightarrow> jsnum" where
  "Math_round (Fin r) = Fin (of_int \<lfloor>r + 1 / 2\<rfloor>)"
| "Math_round v = v"

text \<open>
  \<^verbatim>\<open>x.toFixed(2)\<close>: the magnitude rounded to hundredths (a tie going up), with the sign in
  front; a magnitude of \<open>10\<^sup>2\<^sup>1\<close> or more prints as \<^verbatim>\<open>String(x)\<close>.
\<close>

definition toFixed2 :: "jsnum \<Rightarrow> string" where
  "toFixed2 v =
     (case v of
        Fin r \<Rightarrow>
          if 10 ^ 21 \<le> \<bar>r\<bar> then NumberToString r
          else (let n = \<lfloor>\<bar>r\<bar> * 100 + 1 / 2\<rfloor>
                in (if r < 0 then ''-'' else '''') @ decimal_digits (n div 100) @ ''.'' @
                   [digit_char (n mod 100 div 10), digit_char (n mod 10)])
      | _ \<Rightarrow> jsnum_to_string v)"

text \<open>
  \<^verbatim>\<open>encodeURIComponent\<close> over the UTF-8 bytes of the string: letters, digits and
  \<^verbatim>\<open>- _ . ! ~ * ' ( )\<close> stay, every other byte becomes \<^verbatim>\<open>%XX\<close>.
\<close>

definition is_unreserved :: "char \<Rightarrow> bool" where
  \<open>is_unreserved c =
     (let n = (of_char c :: int)
      in (48 \<le> n \<and> n \<le> 57) \<or> (65 \<le> n \<and> n \<le> 90) \<or> (97 \<le> n \<and> n \<le> 122) \<or>
         c \<in> set ''-_.!~*'()'')\<close>

definition hex_char :: "int \<Rightarrow> char" where
  "hex_char d = (if d < 10 then char_of (48 + d) else char_of (55 + d))"

definition encodeURIComponent :: "string \<Rightarrow> string" where
  "encodeURIComponent s =
     concat (map (\<lambda>c. if is_unreserved c then [c]
                       else [CHR ''%'', hex_char ((of_char c :: int) div 16),
                             hex_char ((of_char c :: int) mod 16)]) s)"

section \<open>The product record and the browser\<close>

text \<open>
  One object of the JSON array. Every field the two pages read is a field of the record; a
  property the object does not have is \<open>JUndefined\<close>. The field \<^verbatim>\<open>id\<close> is \<open>pid\<close> and the field
  \<^verbatim>\<open>image\<close> is \<open>image_url\<close> (\<open>id\<close> and \<open>image\<close> are constants of HOL).
\<close>

record product =
  pid :: jsval
  name :: jsval
  price :: jsval
  old_price :: jsval
  slots :: jsval
  finish :: jsval
  description :: jsval
  image_url :: jsval
  images :: jsval
  specifications :: jsval
  amazon :: jsval

text \<open>
  What the pages read from the browser: \<^verbatim>\<open>window.location.origin\<close>, \<^verbatim>\<open>window.location.href\<close>,
  the query parameters of \<^verbatim>\<open>location.search\<close> as \<^verbatim>\<open>URLSearchParams\<close> parses them, and the
  currency formatter \<^verbatim>\<open>Intl.NumberFormat("en-IN", ...)\<close>, which is \<open>None\<close> where it throws; and
  what the engine's \<^verbatim>\<open>toLowerCase\<close> returns for a text that is not all ASCII.
\<close>

record browser =
  origin :: string
  href :: string
  search_params :: "(string \<times> string) list"
  intl_format :: "jsval \<Rightarrow> string option"
  lower_case :: "string \<Rightarrow> string"

text \<open>
  \<^verbatim>\<open>s.toLowerCase()\<close>. On ASCII text the result is fixed: the letters A to Z become a to z and
  every other character stays. Text beyond ASCII goes through the case tables of the engine's
  version of Unicode (and its context rule for the final sigma), which the browser supplies.
\<close>

definition is_upper :: "char \<Rightarrow> bool" where
  "is_upper c = (65 \<le> (of_char c :: int) \<and> (of_char c :: int) \<le> 90)"

definition lower_char :: "char \<Rightarrow> char" where
  "lower_char c = (if is_upper c then char_of ((of_char c :: int) + 32) else c)"

definition is_ascii :: "string \<Rightarrow> bool" where
  "is_ascii s = list_all (\<lambda>c. (of_char c :: int) < 128) s"

definition toLowerCase :: "browser \<Rightarrow> string \<Rightarrow> string" where
  "toLowerCase b s = (if is_ascii s then map lower_char s else lower_case b s)"

definition rupee :: string where
  "rupee = [CHR 0xE2, CHR 0x82, CHR 0xB9]"

definition formatINR :: "browser \<Rightarrow> jsval \<Rightarrow> string" where
  "formatINR b n =
     (case intl_format b n of Some s \<Rightarrow> s | None \<Rightarrow> rupee @ toFixed2 (ToNumber n))"

definition MERCHANT_EMAIL :: string where
  "MERCHANT_EMAIL = ''urvish.entp@gmail.com''"

section \<open>The list page (js/main.js)\<close>

subsection \<open>DOM nodes\<close>

text \<open>
  A text node, markup assigned through \<^verbatim>\<open>innerHTML\<close> (kept as the string the browser
  parses), or an element with its attributes and children. Event listeners are not part of
  the model.
\<close>

datatype node =
    Text string
  | Html string
  | Elem string "(string \<times> string) list" "node list"

text \<open>
  \<^verbatim>\<open>children.flat().forEach(...)\<close> of \<^verbatim>\<open>el\<close> on a child taken from a record: a string becomes
  a text node, an array contributes its string elements, any other value is skipped.
\<close>

definition child_nodes :: "jsval \<Rightarrow> node list" where
  "child_nodes v =
     (case v of
        JStr s \<Rightarrow> [Text s]
      | JArr xs \<Rightarrow> concat (map (\<lambda>x. case x of JStr s \<Rightarrow> [Text s] | _ \<Rightarrow> []) xs)
      | _ \<Rightarrow> [])"

definition el :: "string \<Rightarrow> (string \<times> jsval) list \<Rightarrow> node list \<Rightarrow> node" where
  "el tag props children =
     Elem tag
       (map (\<lambda>(k, v). (if k = ''className'' then ''class'' else k, ToString v))
            (filter (\<lambda>(k, v). k \<noteq> ''html'') props))
       (map (\<lambda>(k, v). Html (ToString v)) (filter (\<lambda>(k, v). k = ''html'') props) @ children)"

subsection \<open>Contact links\<close>

definition makeWhatsAppLink :: "browser \<Rightarrow> product \<Rightarrow> string" where
  \<open>makeWhatsAppLink b p =
     (let phone = ''916353288843'';
          productUrl = origin b @ ''/product.html?id='' @ ToString (pid p);
          msg = ''Hello, I'm interested in '' @ ToString (name p) @ '' (ID: '' @ ToString (pid p) @
                ''). Is it available?\<newline>\<newline>Product Link: '' @ productUrl
      in if phone \<noteq> [] then ''https://wa.me/'' @ phone @ ''?text='' @ encodeURIComponent msg
         else ''https://wa.me/?text='' @ encodeURIComponent msg)\<close>

definition makeEmailLink :: "browser \<Rightarrow> product \<Rightarrow> string" where
  \<open>makeEmailLink b p =
     (let subject = ''Product enquiry: '' @ ToString (name p);
          productUrl = origin b @ ''/product.html?id='' @ ToString (pid p);
          body = ''Hi,%0D%0A%0D%0AI am interested in '' @ ToString (name p) @ '' (ID: '' @
                 ToString (pid p) @
                 ''). Please share availability and pricing.%0D%0A%0D%0AProduct Link: '' @
                 productUrl @ ''%0D%0A%0D%0AThanks.''
      in ''mailto:'' @ MERCHANT_EMAIL @ ''?subject='' @ encodeURIComponent subject @
         ''&body='' @ body)\<close>

subsection \<open>Rendering\<close>

text \<open>
  \<^verbatim>\<open>Math.round(((p.old_price - p.price) / p.old_price) * 100)\<close>, as both renderers write it.
\<close>

definition discountPercent :: "product \<Rightarrow> jsnum" where
  "discountPercent p =
     Math_round
       (num_mul
          (num_div (num_sub (ToNumber (old_price p)) (ToNumber (price p))) (ToNumber (old_price p)))
          (Fin 100))"

definition bullet :: string where
  "bullet = [CHR 0xE2, CHR 0x80, CHR 0xA2]"

definition priceContent :: "browser \<Rightarrow> product \<Rightarrow> node list" where
  "priceContent b p =
     (if ToBoolean (old_price p)
      then [el ''span'' [(''className'', JStr ''old-price'')] [Text (formatINR b (old_price p))]]
      else []) @
     [el ''span'' [(''className'', JStr ''current-price'')] [Text (formatINR b (price p))]] @
     (if ToBoolean (old_price p)
      then [el ''span'' [(''className'', JStr ''discount'')]
              [Text (jsnum_to_string (discountPercent p) @ ''% off'')]]
      else [])"

definition createCard :: "browser \<Rightarrow> product \<Rightarrow> node" where
  \<open>createCard b p =
     (let img = el ''img''
                  [(''src'', js_or (image_url p) (JStr ''images/placeholder.png'')),
                   (''alt'', name p),
                   (''loading'', JStr ''lazy'')] [];
          titleLink = el ''a''
                  [(''href'', JStr (''product.html?id='' @ encodeURIComponent (ToString (pid p)))),
                   (''className'', JStr ''product-link''),
                   (''aria-label'', JStr (''Open details for '' @ ToString (name p)))]
                  (child_nodes (name p));
          h3 = el ''h3'' [(''id'', JStr (''p-'' @ ToString (pid p) @ ''-title''))] [titleLink];
          price = el ''div'' [(''className'', JStr ''price'')] (priceContent b p);
          specs = el ''div''
                  [(''className'', JStr ''specs''),
                   (''html'', JStr (''<div class="small">Slots: '' @ ToString (slots p) @ '' '' @
                                    bullet @ '' Finish: '' @ ToString (finish p) @
                                    ''</div><div class="small">'' @ ToString (description p) @
                                    ''</div>''))] [];
          readBtn = el ''a''
                  [(''href'', JStr (''product.html?id='' @ encodeURIComponent (ToString (pid p)))),
                   (''className'', JStr ''btn btn-read'')] [Text ''Read More''];
          waBtn = el ''a''
                  [(''href'', JStr (makeWhatsAppLink b p)),
                   (''target'', JStr ''_blank''),
                   (''rel'', JStr ''noopener''),
                   (''className'', JStr ''btn btn-contact'')] [Text ''WhatsApp''];
          emailBtn = el ''a''
                  [(''href'', JStr (makeEmailLink b p)), (''className'', JStr ''btn'')]
                  [Text ''Email''];
          actions = el ''div'' [(''className'', JStr ''actions'')] [readBtn, waBtn, emailBtn]
      in el ''article''
           [(''className'', JStr ''card''),
            (''tabindex'', JStr ''0''),
            (''aria-labelledby'', JStr (''p-'' @ ToString (pid p) @ ''-title''))]
           [img, h3, price, specs, actions])\<close>

subsection \<open>The page state\<close>

text \<open>
  Arrays are objects with identity: \<^verbatim>\<open>products\<close> and \<^verbatim>\<open>lastRendered\<close> hold references, \<^verbatim>\<open>filter\<close>
  and \<^verbatim>\<open>slice\<close> allocate a new array, and \<^verbatim>\<open>sort\<close> rewrites the array it is called on. The
  store maps a reference to the contents of its array; \<open>fresh\<close> is the next unused reference.
  The rest of the state is what the page reads from and writes to the document: the values of
  the search box and of the sort selector, the message element and the product container,
  and the trace of what the loader asked of the network, the console and the timer.
\<close>

datatype fetch_error = Timeout | NetworkFailure | HttpError nat | ParseError | MalformedData

datatype event = Fetch string nat | Warn nat fetch_error | Delay nat

record page =
  store :: "nat \<Rightarrow> product list"
  fresh :: nat
  products :: nat
  lastRendered :: nat
  search_value :: string
  sort_value :: string
  msg_text :: string
  msg_aria_hidden :: string
  container :: "node list"
  events :: "event list"

text \<open>Allocating a new array with the given contents.\<close>

definition alloc :: "product list \<Rightarrow> page \<Rightarrow> nat \<times> page" where
  "alloc xs st = (fresh st, st\<lparr>store := (store st)(fresh st := xs), fresh := Suc (fresh st)\<rparr>)"

definition noResultsHtml :: string where
  \<open>noResultsHtml = ''<p class="msg">No products match your search.</p>''\<close>

text \<open>\<^verbatim>\<open>renderList(list)\<close>, \<open>list\<close> being a reference.\<close>

definition renderList :: "browser \<Rightarrow> nat \<Rightarrow> page \<Rightarrow> page" where
  "renderList b list st =
     (let (copy, st1) = alloc (store st list) st;
          st2 = st1\<lparr>lastRendered := copy\<rparr>
      in if store st2 list = []
         then st2\<lparr>container := [Html noResultsHtml]\<rparr>
         else st2\<lparr>container := map (createCard b) (store st2 list)\<rparr>)"

subsection \<open>Filtering and sorting\<close>

text \<open>The callback of \<^verbatim>\<open>products.filter\<close>, for the query \<open>q\<close> already trimmed and lowercased.\<close>

definition matches :: "browser \<Rightarrow> string \<Rightarrow> product \<Rightarrow> bool" where
  "matches b q p =
     (if q = [] then True
      else (let inName = includes_str (toLowerCase b (ToString (js_or (name p) (JStr '''')))) q;
                inFinish = includes_str (toLowerCase b (ToString (js_or (finish p) (JStr '''')))) q;
                inSlots = includes_str (toLowerCase b (ToString (js_or (slots p) (JStr '''')))) q
            in inName \<or> inFinish \<or> inSlots))"

text \<open>
  \<^verbatim>\<open>Array.prototype.sort(cmp)\<close>. ECMAScript fixes the result for a consistent comparator: the
  elements in the order of \<open>cmp\<close>, elements that compare equal in their original order; a
  comparator result of \<^verbatim>\<open>NaN\<close> counts as \<open>+0\<close>. The model inserts each element, from the last
  to the first, in front of the first element it does not have to come after. (For an
  inconsistent comparator ECMAScript leaves the order to the engine.)
\<close>

definition comes_after :: "jsnum \<Rightarrow> bool" where
  "comes_after v = (case v of Fin r \<Rightarrow> 0 < r | PInf \<Rightarrow> True | _ \<Rightarrow> False)"

fun insert_sorted :: "('a \<Rightarrow> 'a \<Rightarrow> jsnum) \<Rightarrow> 'a \<Rightarrow> 'a list \<Rightarrow> 'a list" where
  "insert_sorted cmp x [] = [x]"
| "insert_sorted cmp x (y # ys) =
     (if comes_after (cmp x y) then y # insert_sorted cmp x ys else x # y # ys)"

definition js_sort :: "('a \<Rightarrow> 'a \<Rightarrow> jsnum) \<Rightarrow> 'a list \<Rightarrow> 'a list" where
  "js_sort cmp xs = foldr (insert_sorted cmp) xs []"

text \<open>The four comparators of \<^verbatim>\<open>applyFilters\<close>.\<close>

definition price_asc :: "product \<Rightarrow> product \<Rightarrow> jsnum" where
  "price_asc a b = num_sub (ToNumber (price a)) (ToNumber (price b))"

definition price_desc :: "product \<Rightarrow> product \<Rightarrow> jsnum" where
  "price_desc a b = num_sub (ToNumber (price b)) (ToNumber (price a))"

definition slots_asc :: "product \<Rightarrow> product \<Rightarrow> jsnum" where
  "slots_asc a b = num_sub (ToNumber (slots a)) (ToNumber (slots b))"

definition slots_desc :: "product \<Rightarrow> product \<Rightarrow> jsnum" where
  "slots_desc a b = num_sub (ToNumber (slots b)) (ToNumber (slots a))"

text \<open>The \<^verbatim>\<open>if\<close>/\<^verbatim>\<open>else if\<close> chain on \<^verbatim>\<open>sortSelect.value\<close>, on the contents of the array.\<close>

definition sort_by :: "string \<Rightarrow> product list \<Rightarrow> product list" where
  "sort_by sortVal xs =
     (if sortVal = ''price-asc'' then js_sort price_asc xs
      else if sortVal = ''price-desc'' then js_sort price_desc xs
      else if sortVal = ''slots-asc'' then js_sort slots_asc xs
      else if sortVal = ''slots-desc'' then js_sort slots_desc xs
      else xs)"

definition query_of :: "browser \<Rightarrow> page \<Rightarrow> string" where
  "query_of b st = toLowerCase b (trim (ToString (js_or (JStr (search_value st)) (JStr ''''))))"

definition applyFilters :: "browser \<Rightarrow> page \<Rightarrow> page" where
  "applyFilters b st =
     (let q = query_of b st;
          (filtered, st1) = alloc (filter (matches b q) (store st (products st))) st;
          sortVal = sort_value st1;
          st2 = st1\<lparr>store := (store st1)(filtered := sort_by sortVal (store st1 filtered))\<rparr>
      in renderList b filtered st2)"

subsection \<open>Fetching\<close>

text \<open>
  What the network does with one request: it never answers, the request fails after some
  milliseconds, or a response arrives after some milliseconds with its \<^verbatim>\<open>ok\<close> flag, its status
  and its body. The body is not JSON at all, JSON that is not an array, or an array of
  records.
\<close>

datatype json_body = InvalidJson | NotArray | ArrayOf "product list"

datatype reply = NoReply | Fails nat | Responds nat bool nat json_body

definition PRODUCTS_URL :: string where
  "PRODUCTS_URL = ''data/products.json''"

definition FETCH_TIMEOUT :: nat where
  "FETCH_TIMEOUT = 8000"

definition MAX_RETRIES :: nat where
  "MAX_RETRIES = 1"

text \<open>
  \<^verbatim>\<open>safeFetch\<close>: the promise settles with whatever comes first, the timer of \<open>timeout\<close>
  milliseconds or the request.
\<close>

definition safeFetch :: "nat \<Rightarrow> reply \<Rightarrow> fetch_error + (bool \<times> nat \<times> json_body)" where
  "safeFetch timeout r =
     (case r of
        NoReply \<Rightarrow> Inl Timeout
      | Fails t \<Rightarrow> if t < timeout then Inl NetworkFailure else Inl Timeout
      | Responds t ok status body \<Rightarrow> if t < timeout then Inr (ok, status, body) else Inl Timeout)"

text \<open>The body of the \<^verbatim>\<open>try\<close> block up to the assignment: the records, or what was thrown.\<close>

definition try_load :: "reply \<Rightarrow> fetch_error + product list" where
  "try_load r =
     (case safeFetch FETCH_TIMEOUT r of
        Inl e \<Rightarrow> Inl e
      | Inr (ok, status, body) \<Rightarrow>
          if \<not> ok then Inl (HttpError status)
          else (case body of
                  InvalidJson \<Rightarrow> Inl ParseError
                | NotArray \<Rightarrow> Inl MalformedData
                | ArrayOf json \<Rightarrow> Inr json))"

definition loadFailedText :: string where
  "loadFailedText = ''Sorry '' @ [CHR 0xE2, CHR 0x80, CHR 0x94] @ '' could not load products at this time.''"

definition unableHtml :: string where
  \<open>unableHtml = ''<p class="msg">Unable to load products. Please try again later.</p>''\<close>

text \<open>
  The \<^verbatim>\<open>for\<close> loop of \<^verbatim>\<open>fetchProductsWithRetry\<close> from the iteration \<open>attempt\<close> on; \<open>net\<close> gives
  the network's reply to each attempt. The retry budget is a count (the page only ever
  passes \<^verbatim>\<open>MAX_RETRIES\<close>), so it is a natural number.
\<close>

function attempts :: "browser \<Rightarrow> (nat \<Rightarrow> reply) \<Rightarrow> nat \<Rightarrow> nat \<Rightarrow> page \<Rightarrow> page" where
  "attempts b net retries attempt st =
     (if attempt \<le> retries then
        (let st0 = st\<lparr>events := events st @ [Fetch PRODUCTS_URL FETCH_TIMEOUT]\<rparr>
         in case try_load (net attempt) of
              Inr json \<Rightarrow>
                (let (r, st1) = alloc json st0;
                     st2 = st1\<lparr>products := r, msg_text := '''', msg_aria_hidden := ''true''\<rparr>
                 in renderList b (products st2) st2)
            | Inl err \<Rightarrow>
                (let st1 = st0\<lparr>events := events st0 @ [Warn (attempt + 1) err]\<rparr>
                 in if attempt = retries
                    then attempts b net retries (attempt + 1)
                           (st1\<lparr>msg_text := loadFailedText, msg_aria_hidden := ''false'',
                                container := [Html unableHtml]\<rparr>)
                    else attempts b net retries (attempt + 1)
                           (st1\<lparr>events := events st1 @ [Delay 500]\<rparr>)))
      else st)"
  by pat_completeness auto
termination
  by (relation "measure (\<lambda>(b, net, retries, attempt, st). Suc retries - attempt)") auto

declare attempts.simps [simp del]

definition fetchProductsWithRetry :: "browser \<Rightarrow> (nat \<Rightarrow> reply) \<Rightarrow> nat \<Rightarrow> page \<Rightarrow> page" where
  "fetchProductsWithRetry b net retries st =
     attempts b net retries 0 (st\<lparr>msg_text := ''Loading products...'', msg_aria_hidden := ''false''\<rparr>)"

subsection \<open>Theme toggle\<close>

text \<open>
  The functions of \<^verbatim>\<open>js/main.js\<close>; the detail page has the same three (its \<^verbatim>\<open>setTheme\<close>
  also swaps the logo image), with the same effect on attribute and storage.
\<close>

text \<open>
  The \<^verbatim>\<open>data-theme\<close> attribute of the document element, the \<^verbatim>\<open>theme\<close> item of
  \<^verbatim>\<open>localStorage\<close> (each \<open>None\<close> when absent, which JavaScript reads as \<^verbatim>\<open>null\<close>), the text of the
  toggle button, and whether the click handler is installed.
\<close>

record theme_dom =
  data_theme :: "string option"
  stored_theme :: "string option"
  toggle_text :: string
  toggle_installed :: bool

text \<open>\<^verbatim>\<open>v || d\<close> for a string or \<^verbatim>\<open>null\<close> on the left.\<close>

definition or_default :: "string option \<Rightarrow> string \<Rightarrow> string" where
  "or_default v d = (case v of None \<Rightarrow> d | Some s \<Rightarrow> if s = [] then d else s)"

definition sun_icon :: string where
  "sun_icon = [CHR 0xE2, CHR 0x98, CHR 0x80, CHR 0xEF, CHR 0xB8, CHR 0x8F]"

definition moon_icon :: string where
  "moon_icon = [CHR 0xF0, CHR 0x9F, CHR 0x8C, CHR 0x99]"

definition setTheme :: "string \<Rightarrow> theme_dom \<Rightarrow> theme_dom" where
  "setTheme theme d =
     d\<lparr>data_theme := Some theme, stored_theme := Some theme,
       toggle_text := (if theme = ''dark'' then sun_icon else moon_icon)\<rparr>"

definition toggleTheme :: "theme_dom \<Rightarrow> theme_dom" where
  "toggleTheme d =
     (let current = or_default (data_theme d) ''light'';
          newTheme = (if current = ''dark'' then ''light'' else ''dark'')
      in setTheme newTheme d)"

definition initTheme :: "theme_dom \<Rightarrow> theme_dom" where
  "initTheme d =
     (let saved = or_default (stored_theme d) ''light''
      in (setTheme saved d)\<lparr>toggle_installed := True\<rparr>)"


section \<open>The detail page (js/product.js)\<close>

text \<open>\<^verbatim>\<open>params.get(name)\<close>: the first value given for the name, \<open>None\<close> (\<^verbatim>\<open>null\<close>) when there is none.\<close>

definition getParam :: "browser \<Rightarrow> string \<Rightarrow> string option" where
  "getParam b nm = map_of (search_params b) nm"

text \<open>\<^verbatim>\<open>s.replace(/c/g, r)\<close> for a single character \<open>c\<close>.\<close>

definition replace_all :: "char \<Rightarrow> string \<Rightarrow> string \<Rightarrow> string" where
  "replace_all c r s = concat (map (\<lambda>x. if x = c then r else [x]) s)"

definition escapeHtml :: "jsval \<Rightarrow> string" where
  \<open>escapeHtml str =
     (if str = JNull \<or> str = JUndefined then ''''
      else replace_all (CHR 0x27) ''&#39;''
             (replace_all (CHR ''"'') ''&quot;''
                (replace_all (CHR ''>'') ''&gt;''
                   (replace_all (CHR ''<'') ''&lt;''
                      (replace_all (CHR ''&'') ''&amp;'' (ToString str))))))\<close>

definition makeWhatsAppLink_detail :: "browser \<Rightarrow> product \<Rightarrow> string" where
  \<open>makeWhatsAppLink_detail b p =
     (let phone = ''916353288843'';
          productUrl = href b;
          msg = ''Hello, I'm interested in '' @ ToString (name p) @ '' (ID: '' @ ToString (pid p) @
                ''). Is it available?\<newline>\<newline>Product Link: '' @ productUrl
      in if phone \<noteq> [] then ''https://wa.me/'' @ phone @ ''?text='' @ encodeURIComponent msg
         else ''https://wa.me/?text='' @ encodeURIComponent msg)\<close>

definition makeEmailLink_detail :: "browser \<Rightarrow> product \<Rightarrow> string" where
  \<open>makeEmailLink_detail b p =
     (let subject = ''Enquiry: '' @ ToString (name p);
          productUrl = href b;
          body = ''Hi,%0D%0A%0D%0AI would like more information about '' @ ToString (name p) @
                 '' (ID: '' @ ToString (pid p) @ '').%0D%0A%0D%0AProduct Link: '' @ productUrl @
                 ''%0D%0A%0D%0AThanks.''
      in ''mailto:'' @ MERCHANT_EMAIL @ ''?subject='' @ encodeURIComponent subject @
         ''&body='' @ body)\<close>

definition renderNotFound :: string where
  \<open>renderNotFound =
     ''<p class="msg">Product not found. Please check the link or return to <a href="index.html">catalog</a>.</p>''\<close>

definition couldNotLoadHtml :: string where
  \<open>couldNotLoadHtml = ''<p class="msg">Could not load product data. Try again later.</p>''\<close>

text \<open>
  The pieces of \<^verbatim>\<open>renderProduct\<close>, each the template literal of the source with its line
  breaks and indentation. \<open>gallery_images\<close> is the local \<^verbatim>\<open>images\<close>: the array \<^verbatim>\<open>p.images\<close> when
  it is a non-empty array, the single image or the placeholder otherwise.
\<close>

definition gallery_images :: "product \<Rightarrow> jsval list" where
  "gallery_images p =
     (case images p of
        JArr xs \<Rightarrow> if 0 < length xs then xs
                   else [js_or (image_url p) (JStr ''images/placeholder.png'')]
      | _ \<Rightarrow> [js_or (image_url p) (JStr ''images/placeholder.png'')])"

definition mainImgSrc :: "product \<Rightarrow> jsval" where
  "mainImgSrc p = hd (gallery_images p)"

definition mainImg :: "product \<Rightarrow> string" where
  \<open>mainImg p =
     ''<img id="main-img" src="'' @ ToString (mainImgSrc p) @ ''" alt="'' @ escapeHtml (name p) @
     ''" loading="lazy" onerror="this.src='images/placeholder.png'">''\<close>

definition thumbnail :: "product \<Rightarrow> nat \<Rightarrow> jsval \<Rightarrow> string" where
  \<open>thumbnail p index imgSrc =
     ''<img class="thumbnail '' @ (if index = 0 then ''active'' else '''') @ ''" src="'' @
     ToString imgSrc @ ''" alt="'' @ escapeHtml (name p) @ '' - View '' @
     NumberToString (of_nat (index + 1)) @ ''" data-index="'' @ NumberToString (of_nat index) @
     ''" loading="lazy" onerror="this.src='images/placeholder.png'">''\<close>

definition thumbnailsHtml :: "product \<Rightarrow> string" where
  "thumbnailsHtml p =
     concat (map (\<lambda>(index, imgSrc). thumbnail p index imgSrc)
                 (enumerate 0 (gallery_images p)))"

definition imageGalleryHtml :: "product \<Rightarrow> string" where
  \<open>imageGalleryHtml p =
      ''\<newline>'' @
      ''    <div class="image-gallery">\<newline>'' @
      ''      <div class="main-image">\<newline>'' @
      ''        '' @
      mainImg p @
      ''\<newline>'' @
      ''      </div>\<newline>'' @
      ''      <div class="thumbnails">\<newline>'' @
      ''        '' @
      thumbnailsHtml p @
      ''\<newline>'' @
      ''      </div>\<newline>'' @
      ''    </div>\<newline>'' @
      ''  ''\<close>

definition specsHtml :: "product \<Rightarrow> string" where
  "specsHtml p =
     (case specifications p of
        JArr xs \<Rightarrow> concat (map (\<lambda>s. ''<li>'' @ escapeHtml s @ ''</li>'') xs)
      | _ \<Rightarrow> '''')"

definition amazonHtml :: "product \<Rightarrow> string" where
  \<open>amazonHtml p =
     (if ToBoolean (amazon p)
      then ''<a class="amazon-link" target="_blank" rel="noopener" href="'' @
           escapeHtml (amazon p) @ ''">Buy on Amazon</a>''
      else '''')\<close>

definition oldPriceHtml :: "browser \<Rightarrow> product \<Rightarrow> string" where
  \<open>oldPriceHtml b p =
     (if ToBoolean (old_price p)
      then ''<span class="old-price"><s>'' @ formatINR b (old_price p) @ ''</s></span>''
      else '''')\<close>

definition discountHtml :: "product \<Rightarrow> string" where
  \<open>discountHtml p =
     (if ToBoolean (old_price p)
      then ''<span class="discount">'' @ jsnum_to_string (discountPercent p) @ ''% off</span>''
      else '''')\<close>

text \<open>\<^verbatim>\<open>renderProduct(p)\<close>: the markup assigned to \<^verbatim>\<open>detailEl.innerHTML\<close>; \<open>None\<close> is \<^verbatim>\<open>undefined\<close>.\<close>

definition renderProduct :: "browser \<Rightarrow> product option \<Rightarrow> string" where
  \<open>renderProduct b found =
     (case found of
        None \<Rightarrow> renderNotFound
      | Some p \<Rightarrow>
      ''\<newline>'' @
      ''    <div class="top">\<newline>'' @
      ''      '' @
      imageGalleryHtml p @
      ''\<newline>'' @
      ''      <div class="product-meta">\<newline>'' @
      ''        <h2>'' @
      escapeHtml (name p) @
      ''</h2>\<newline>'' @
      ''        <div class="price">\<newline>'' @
      ''          '' @
      oldPriceHtml b p @
      ''\<newline>'' @
      ''          <span class="current-price">'' @
      formatINR b (price p) @
      ''</span>\<newline>'' @
      ''          '' @
      discountHtml p @
      ''\<newline>'' @
      ''        </div>\<newline>'' @
      ''        <div class="specs small">Slots: '' @
      escapeHtml (JStr (ToString (slots p))) @
      '' '' @
      bullet @
      '' Finish: '' @
      escapeHtml (finish p) @
      ''</div>\<newline>'' @
      ''        <p>'' @
      escapeHtml (description p) @
      ''</p>\<newline>'' @
      ''        <ul class="spec-list">\<newline>'' @
      ''          '' @
      specsHtml p @
      ''\<newline>'' @
      ''        </ul>\<newline>'' @
      ''        '' @
      amazonHtml p @
      ''\<newline>'' @
      ''        <div style="margin-top:1rem;display:flex;gap:0.5rem;flex-wrap:wrap">\<newline>'' @
      ''          <a class="btn btn-contact" target="_blank" rel="noopener" href="'' @
      makeWhatsAppLink_detail b p @
      ''">WhatsApp</a>\<newline>'' @
      ''          <a class="btn" href="'' @
      makeEmailLink_detail b p @
      ''">Email</a>\<newline>'' @
      ''        </div>\<newline>'' @
      ''      </div>\<newline>'' @
      ''    </div>\<newline>'' @
      ''  '')\<close>

text \<open>\<^verbatim>\<open>list.find((x) => String(x.id) === String(id))\<close>.\<close>

definition lookup :: "product list \<Rightarrow> jsval \<Rightarrow> product option" where
  "lookup list ident = find (\<lambda>x. ToString (pid x) = ToString ident) list"

text \<open>
  \<^verbatim>\<open>loadAndRender\<close>: the markup the detail element ends with, for the network's reply to the
  one request the page makes.
\<close>

definition loadAndRender :: "browser \<Rightarrow> reply \<Rightarrow> string" where
  "loadAndRender b r =
     (case getParam b ''id'' of
        None \<Rightarrow> renderNotFound
      | Some ident \<Rightarrow>
          if ident = [] then renderNotFound
          else (case safeFetch FETCH_TIMEOUT r of
                  Inl err \<Rightarrow> couldNotLoadHtml
                | Inr (ok, status, body) \<Rightarrow>
                    if \<not> ok then couldNotLoadHtml
                    else (case body of
                            ArrayOf list \<Rightarrow> renderProduct b (lookup list (JStr ident))
                          | _ \<Rightarrow> couldNotLoadHtml)))"

section \<open>Notions used to state the properties\<close>

text \<open>The list the page last rendered: the contents of the array \<^verbatim>\<open>lastRendered\<close> refers to.\<close>

definition rendered :: "page \<Rightarrow> product list" where
  "rendered st = store st (lastRendered st)"

text \<open>
  The text a field is searched in: the lowercased string form of the field, and the empty
  string for a field that is absent or \<^verbatim>\<open>null\<close>.
\<close>

definition field_text :: "browser \<Rightarrow> jsval \<Rightarrow> string" where
  "field_text b v =
     (case v of JUndefined \<Rightarrow> [] | JNull \<Rightarrow> [] | _ \<Rightarrow> toLowerCase b (ToString v))"

text \<open>
  A value that is present and that the guard \<^verbatim>\<open>v || ""\<close> nevertheless replaces by the empty
  string: \<^verbatim>\<open>false\<close> and a number that is zero.
\<close>

fun blanked :: "jsval \<Rightarrow> bool" where
  "blanked (JBool b) = (\<not> b)"
| "blanked (JNum r) = (fl r = Fin 0)"
| "blanked v = False"

definition searchable :: "product \<Rightarrow> bool" where
  "searchable p = (\<forall>v \<in> {name p, finish p, slots p}. \<not> blanked v)"

text \<open>
  The filter in the words of the specification: the query is a substring of the lowercased
  string form of the name, of the finish or of the slots.
\<close>

definition spec_matches :: "browser \<Rightarrow> string \<Rightarrow> product \<Rightarrow> bool" where
  "spec_matches b q p =
     (q = [] \<or> sublist q (toLowerCase b (ToString (name p)))
             \<or> sublist q (toLowerCase b (ToString (finish p)))
             \<or> sublist q (toLowerCase b (ToString (slots p))))"

text \<open>The four directional sort keys, the number each orders by, and the order it asks for.\<close>

definition directional :: "string set" where
  "directional = {''price-asc'', ''price-desc'', ''slots-asc'', ''slots-desc''}"

definition sort_number :: "string \<Rightarrow> product \<Rightarrow> jsnum" where
  "sort_number sortVal p =
     (if sortVal = ''price-asc'' \<or> sortVal = ''price-desc'' then ToNumber (price p)
      else ToNumber (slots p))"

definition num_le :: "jsnum \<Rightarrow> jsnum \<Rightarrow> bool" where
  "num_le a b =
     (case (a, b) of
        (NaN, _) \<Rightarrow> False
      | (_, NaN) \<Rightarrow> False
      | (NInf, _) \<Rightarrow> True
      | (_, PInf) \<Rightarrow> True
      | (Fin x, Fin y) \<Rightarrow> x \<le> y
      | _ \<Rightarrow> False)"

definition in_order :: "string \<Rightarrow> product \<Rightarrow> product \<Rightarrow> bool" where
  "in_order sortVal a b =
     (if sortVal = ''price-desc'' \<or> sortVal = ''slots-desc''
      then num_le (sort_number sortVal b) (sort_number sortVal a)
      else num_le (sort_number sortVal a) (sort_number sortVal b))"

text \<open>The doubles are among the integer multiples of \<open>2\<^sup>-\<^sup>1\<^sup>0\<^sup>7\<^sup>4\<close>.\<close>

definition is_double :: "rat \<Rightarrow> bool" where
  "is_double v = (\<exists>k::int. v = of_int k * pow2 (- 1074))"

text \<open>A position for each number that is not \<^verbatim>\<open>NaN\<close> in a linear order, for the proofs.\<close>

definition rank :: "jsnum \<Rightarrow> int \<times> rat" where
  "rank v = (case v of NInf \<Rightarrow> (- 1, 0) | Fin r \<Rightarrow> (0, r) | PInf \<Rightarrow> (1, 0) | NaN \<Rightarrow> (2, 0))"

definition neg_rank :: "jsnum \<Rightarrow> int \<times> rat" where
  "neg_rank v = (- fst (rank v), - snd (rank v))"

definition position :: "string \<Rightarrow> product \<Rightarrow> int \<times> rat" where
  "position sortVal p =
     (if sortVal = ''price-desc'' \<or> sortVal = ''slots-desc''
      then neg_rank (sort_number sortVal p) else rank (sort_number sortVal p))"

text \<open>An attempt fails when the \<^verbatim>\<open>try\<close> block throws.\<close>

definition fails :: "reply \<Rightarrow> bool" where
  "fails r = (case try_load r of Inl e \<Rightarrow> True | Inr json \<Rightarrow> False)"

definition thrown :: "reply \<Rightarrow> fetch_error" where
  "thrown r = (case try_load r of Inl e \<Rightarrow> e | Inr json \<Rightarrow> MalformedData)"

text \<open>
  What a failed attempt leaves in the trace: the request with its own timeout, the warning,
  and the delay of 500 ms unless it was the last attempt of the budget.
\<close>

definition failed_attempt :: "(nat \<Rightarrow> reply) \<Rightarrow> nat \<Rightarrow> nat \<Rightarrow> event list" where
  "failed_attempt net retries i =
     [Fetch PRODUCTS_URL FETCH_TIMEOUT, Warn (i + 1) (thrown (net i))] @
     (if i = retries then [] else [Delay 500])"

text \<open>A theme state the page can be in once \<^verbatim>\<open>initTheme\<close> has run: attribute and storage agree.\<close>

definition theme_is :: "string \<Rightarrow> theme_dom \<Rightarrow> bool" where
  "theme_is t d = (data_theme d = Some t \<and> stored_theme d = Some t)"

text \<open>
  The two handlers \<^verbatim>\<open>init\<close> installs on the controls: each stores what the user entered
  and recomputes the view. (For the search box this is one firing of the debounced handler.)
\<close>

datatype user_input = Search string | Sort string

fun handle :: "browser \<Rightarrow> user_input \<Rightarrow> page \<Rightarrow> page" where
  "handle b (Search s) st = applyFilters b (st\<lparr>search_value := s\<rparr>)"
| "handle b (Sort v) st = applyFilters b (st\<lparr>sort_value := v\<rparr>)"

definition session :: "browser \<Rightarrow> user_input list \<Rightarrow> page \<Rightarrow> page" where
  "session b inputs st = fold (handle b) inputs st"

fun node_children :: "node \<Rightarrow> node list" where
  "node_children (Elem tag attrs children) = children"
| "node_children n = []"

subsection \<open>Sample data\<close>

text \<open>
  A browser without \<^verbatim>\<open>Intl\<close>, whose \<^verbatim>\<open>toLowerCase\<close> is given on ASCII and Latin-1 text (the
  letters U+00C0 to U+00DE, in UTF-8 the byte \<^verbatim>\<open>C3\<close> and a byte from \<^verbatim>\<open>80\<close> to \<^verbatim>\<open>9E\<close> other than
  \<^verbatim>\<open>97\<close>, go to the letter \<^verbatim>\<open>20\<close> further): all the text the sample data holds.
\<close>

fun latin_lower :: "string \<Rightarrow> string" where
  "latin_lower [] = []"
| "latin_lower [c] = [lower_char c]"
| "latin_lower (c # d # s) =
     (if c = CHR 0xC3 \<and> 128 \<le> (of_char d :: int) \<and> (of_char d :: int) \<le> 158
         \<and> (of_char d :: int) \<noteq> 151
      then c # char_of ((of_char d :: int) + 32) # latin_lower s
      else lower_char c # latin_lower (d # s))"

definition sample_browser :: browser where
  "sample_browser =
     \<lparr>origin = ''https://shop.example'',
      href = ''https://shop.example/product.html?id=3'',
      search_params = [(''id'', ''3'')],
      intl_format = (\<lambda>n. None),
      lower_case = latin_lower\<rparr>"

definition item :: "jsval \<Rightarrow> string \<Rightarrow> jsval \<Rightarrow> jsval \<Rightarrow> jsval \<Rightarrow> jsval \<Rightarrow> product" where
  "item i n pr old sl fin =
     \<lparr>pid = i, name = JStr n, price = pr, old_price = old, slots = sl, finish = fin,
      description = JStr ''Modular switch plate'', image_url = JUndefined, images = JUndefined,
      specifications = JUndefined, amazon = JUndefined\<rparr>"

text \<open>
  A list page holding the given records in the array \<^verbatim>\<open>products\<close> refers to, with the given
  contents of the search box and of the sort selector.
\<close>

definition page_with :: "product list \<Rightarrow> string \<Rightarrow> string \<Rightarrow> page" where
  "page_with xs q sv =
     \<lparr>store = (\<lambda>r. if r = 0 then xs else []), fresh = 2, products = 0, lastRendered = 1,
      search_value = q, sort_value = sv, msg_text = '''', msg_aria_hidden = ''true'',
      container = [], events = []\<rparr>"

definition plate_a :: product where
  "plate_a = item (JNum 1) ''Classic Plate'' (JNum 900) (JNum 1000) (JNum 4) (JStr ''Matte Blue'')"

definition plate_b :: product where
  "plate_b = item (JNum 2) ''Slim Plate'' (JNum 800) (JNum 1000) (JNum 2) (JStr ''Gloss White'')"

definition plate_c :: product where
  "plate_c = item (JStr ''3'') ''Wide Plate'' (JNum 900) JUndefined (JStr ''6'') (JStr ''Matte Black'')"

definition plate_null_finish :: product where
  "plate_null_finish = item (JNum 7) ''Blank Plate'' (JNum 500) JUndefined (JNum 2) JNull"

definition plate_no_slots :: product where
  "plate_no_slots = item (JNum 8) ''Cover Plate'' (JNum 300) (JNum 0) (JNum 0) (JStr ''White'')"


text \<open>
  A record with a name beyond ASCII (\<^verbatim>\<open>CAF\<close>, U+00C9, \<^verbatim>\<open> Plate\<close>), a query for it in lower case with a
  NO-BREAK SPACE in front and a space behind, and a query of white space only: a space, a
  NO-BREAK SPACE, an EM SPACE and a TAB.
\<close>

definition plate_cafe :: product where
  "plate_cafe =
     item (JNum 10) (''CAF'' @ [CHR 0xC3, CHR 0x89] @ '' Plate'') (JNum 700) JUndefined (JNum 2)
       (JStr ''Cream'')"

definition nbsp_cafe_query :: string where
  "nbsp_cafe_query = [CHR 0xC2, CHR 0xA0] @ ''caf'' @ [CHR 0xC3, CHR 0xA9] @ '' ''"

definition blank_query :: string where
  "blank_query = [CHR 0x20, CHR 0xC2, CHR 0xA0, CHR 0xE2, CHR 0x80, CHR 0x83, CHR 0x09]"

text \<open>
  Two records whose exact discount is at a half and next to a half: 171 against 200 (14.5
  percent), and \<^verbatim>\<open>75.00000000000001\<close> against 1000 (just below 92.5 percent).
\<close>

definition plate_tie :: product where
  "plate_tie = item (JNum 11) ''Steel Plate'' (JNum 171) (JNum 200) (JNum 2) (JStr ''Steel'')"

definition plate_near_tie :: product where
  "plate_near_tie =
     item (JNum 12) ''Copper Plate'' (JNum (7500000000000001 / 100000000000000)) (JNum 1000)
       (JNum 2) (JStr ''Copper'')"

definition plate_hostile :: product where
  \<open>plate_hostile =
     (item (JNum 5) ''Plate "Pro"'' (JNum 100) JUndefined (JNum 1) (JStr ''Ivory''))
       \<lparr>image_url := JStr ''x" onerror="alert(1)''\<rparr>\<close>

text \<open>
  Two networks: one that leaves the first request unanswered and answers the second after
  seven seconds, and one that answers every request with status 503.
\<close>

definition slow_then_ok :: "nat \<Rightarrow> reply" where
  "slow_then_ok i =
     (if i = 0 then NoReply else Responds 7000 True 200 (ArrayOf [plate_a, plate_b]))"

definition always_down :: "nat \<Rightarrow> reply" where
  "always_down i = Responds 50 False 503 NotArray"

section \<open>Properties of the rounding to doubles\<close>

lemma pow2_eq: "pow2 e = power_int 2 e"
proof (induction e rule: pow2.induct)
  case (1 e)
  show ?case
  proof (cases "e = 0")
    case True
    then show ?thesis by (simp add: pow2.simps)
  next
    case nz: False
    show ?thesis
    proof (cases "e < 0")
      case True
      then have "pow2 e = 1 / pow2 (- e)" using nz by (subst pow2.simps) simp
      also have "\<dots> = 1 / power_int 2 (- e)" using 1(1) [OF nz True] by simp
      also have "\<dots> = power_int 2 e" by (simp add: power_int_minus field_simps)
      finally show ?thesis .
    next
      case pos: False
      show ?thesis
      proof (cases "even e")
        case True
        then have "pow2 e = pow2 (e div 2) * pow2 (e div 2)"
          using nz pos by (subst pow2.simps) (simp add: Let_def)
        also have "\<dots> = power_int 2 (e div 2) * power_int 2 (e div 2)"
          using 1(2) [OF nz pos True] by simp
        also have "\<dots> = power_int (2::rat) (e div 2 + e div 2)"
          by (rule power_int_add [symmetric]) simp
        also have "e div 2 + e div 2 = e" using True by auto
        finally show ?thesis .
      next
        case False
        then have "pow2 e = 2 * pow2 (e - 1)"
          using nz pos by (subst pow2.simps) simp
        also have "\<dots> = 2 * power_int 2 (e - 1)"
          using 1(3) [OF nz pos False] by simp
        also have "\<dots> = power_int (2::rat) (1 + (e - 1))"
          by (subst power_int_add) simp_all
        finally show ?thesis by simp
      qed
    qed
  qed
qed

lemma pow2_pos: "0 < pow2 e"
  by (simp add: pow2_eq)

lemma pow2_add: "pow2 (a + b) = pow2 a * pow2 b"
  by (simp add: pow2_eq power_int_add)

lemma pow2_mono: "a \<le> b \<Longrightarrow> pow2 a \<le> pow2 b"
  by (simp add: pow2_eq power_int_increasing)

lemma pow2_nat: "0 \<le> e \<Longrightarrow> pow2 e = of_int (2 ^ nat e)"
  by (simp add: pow2_eq power_int_def)

lemma bitlen_lower: "0 < p \<Longrightarrow> pow2 (bitlen p - 1) \<le> of_int p"
proof -
  assume p: "0 < p"
  then have b: "2 ^ nat (bitlen p - 1) \<le> p" using bitlen_bounds by blast
  have "bitlen p \<noteq> 0" using p by (simp add: bitlen_eq_zero_iff)
  then have "0 < bitlen p" using bitlen_nonneg [of p] by linarith
  then have "pow2 (bitlen p - 1) = of_int (2 ^ nat (bitlen p - 1))"
    by (intro pow2_nat) simp
  also have "\<dots> \<le> of_int p" using b by (simp only: of_int_le_iff)
  finally show ?thesis .
qed

lemma bitlen_upper: "0 < p \<Longrightarrow> (of_int p :: rat) < pow2 (bitlen p)"
proof -
  assume p: "0 < p"
  then have b: "p < 2 ^ nat (bitlen p)" using bitlen_bounds by blast
  have "0 \<le> bitlen p" by (rule bitlen_nonneg)
  then have e: "pow2 (bitlen p) = of_int (2 ^ nat (bitlen p))"
    by (intro pow2_nat)
  have "(of_int p :: rat) < of_int (2 ^ nat (bitlen p))" using b by (simp only: of_int_less_iff)
  then show ?thesis by (simp only: e)
qed

lemma ilog2_lower: "0 < x \<Longrightarrow> pow2 (ilog2 x) \<le> x"
proof -
  assume x: "0 < x"
  obtain p q where pq: "quotient_of x = (p, q)" by (cases "quotient_of x")
  have q: "0 < q" using pq by (rule quotient_of_denom_pos)
  have xd: "x = of_int p / of_int q" using pq by (rule quotient_of_div)
  have p: "0 < p" using x q xd by (simp add: zero_less_divide_iff)
  let ?e0 = "bitlen p - bitlen q"
  show ?thesis
  proof (cases "pow2 ?e0 \<le> x")
    case True
    then show ?thesis by (simp add: ilog2_def pq)
  next
    case False
    then have il: "ilog2 x = ?e0 - 1" by (simp add: ilog2_def pq)
    have "pow2 (?e0 - 1) * of_int q \<le> pow2 (?e0 - 1) * pow2 (bitlen q)"
      using bitlen_upper [OF q] pow2_pos [of "?e0 - 1"] by (intro mult_left_mono) simp_all
    also have "\<dots> = pow2 (bitlen p - 1)"
      by (simp add: pow2_add [symmetric])
    also have "\<dots> \<le> of_int p" by (rule bitlen_lower [OF p])
    finally have "pow2 (?e0 - 1) \<le> of_int p / of_int q"
      using q by (simp add: pos_le_divide_eq)
    then have "pow2 (?e0 - 1) \<le> x" by (simp only: xd)
    then show ?thesis by (simp only: il)
  qed
qed

lemma ilog2_upper: "0 < x \<Longrightarrow> x < pow2 (ilog2 x + 1)"
proof -
  assume x: "0 < x"
  obtain p q where pq: "quotient_of x = (p, q)" by (cases "quotient_of x")
  have q: "0 < q" using pq by (rule quotient_of_denom_pos)
  have xd: "x = of_int p / of_int q" using pq by (rule quotient_of_div)
  have p: "0 < p" using x q xd by (simp add: zero_less_divide_iff)
  let ?e0 = "bitlen p - bitlen q"
  show ?thesis
  proof (cases "pow2 ?e0 \<le> x")
    case True
    then have il: "ilog2 x = ?e0" by (simp add: ilog2_def pq)
    have "of_int p < pow2 (bitlen p)" by (rule bitlen_upper [OF p])
    also have "\<dots> = pow2 (?e0 + 1) * pow2 (bitlen q - 1)"
      by (simp add: pow2_add [symmetric])
    also have "\<dots> \<le> pow2 (?e0 + 1) * of_int q"
      using bitlen_lower [OF q] pow2_pos [of "?e0 + 1"] by (intro mult_left_mono) simp_all
    finally have "of_int p / of_int q < pow2 (?e0 + 1)"
      using q by (simp add: pos_divide_less_eq)
    then have "x < pow2 (?e0 + 1)" by (simp only: xd)
    then show ?thesis by (simp only: il)
  next
    case False
    then have il: "ilog2 x = ?e0 - 1" by (simp add: ilog2_def pq)
    show ?thesis using False by (simp add: il)
  qed
qed

lemma round_even_floor: "\<lfloor>q\<rfloor> \<le> round_even q"
  by (simp add: round_even_def Let_def)

lemma round_even_pos: "1 \<le> q \<Longrightarrow> 1 \<le> round_even q"
proof -
  assume "1 \<le> q"
  then have "1 \<le> \<lfloor>q\<rfloor>" by simp
  then show ?thesis using round_even_floor [of q] by linarith
qed

lemma round_even_nonneg: "0 \<le> q \<Longrightarrow> 0 \<le> round_even q"
proof -
  assume "0 \<le> q"
  then have "0 \<le> \<lfloor>q\<rfloor>" by simp
  then show ?thesis using round_even_floor [of q] by linarith
qed

lemma round_even_error: "\<bar>of_int (round_even q) - q\<bar> \<le> 1 / 2"
proof -
  have "of_int \<lfloor>q\<rfloor> \<le> q" and "q < of_int \<lfloor>q\<rfloor> + 1" by linarith+
  then show ?thesis unfolding round_even_def Let_def by (auto simp: abs_le_iff)
qed

lemma scaled_ge1:
  assumes a: "0 < a"
  shows "1 \<le> a / pow2 (max (ilog2 a - 52) (- 1074)) \<or> a < pow2 (- 1074)"
proof (cases "- 1074 \<le> ilog2 a - 52")
  case True
  then have m: "max (ilog2 a - 52) (- 1074) = ilog2 a - 52" by simp
  have "pow2 (ilog2 a - 52) \<le> pow2 (ilog2 a)" by (rule pow2_mono) simp
  also have "\<dots> \<le> a" by (rule ilog2_lower [OF a])
  finally show ?thesis using pow2_pos [of "ilog2 a - 52"] by (simp add: m pos_le_divide_eq)
next
  case False
  then have m: "max (ilog2 a - 52) (- 1074) = - 1074" by simp
  show ?thesis using pow2_pos [of "- 1074"] by (simp only: m pos_le_divide_eq) auto
qed

lemma fl_zero: "fl 0 = Fin 0"
  by (simp add: fl_def)

lemma fl_cases:
  assumes "x \<noteq> 0"
  obtains (inf) "fl x = (if x < 0 then NInf else PInf)"
  | (fin) e where "- 1074 \<le> e" and "e = max (ilog2 \<bar>x\<bar> - 52) (- 1074)"
      and "fl x = Fin ((if x < 0 then - 1 else 1) * of_int (round_even (\<bar>x\<bar> / pow2 e)) * pow2 e)"
proof (cases "fl x = (if x < 0 then NInf else PInf)")
  case True
  then show ?thesis by (rule inf)
next
  case False
  let ?e = "max (ilog2 \<bar>x\<bar> - 52) (- 1074)"
  have "fl x = Fin ((if x < 0 then - 1 else 1) * of_int (round_even (\<bar>x\<bar> / pow2 ?e)) * pow2 ?e)"
    using False assms unfolding fl_def Let_def by (simp split: if_splits)
  then show ?thesis by (intro fin [of ?e]) simp_all
qed

lemma is_double_pow2: "- 1074 \<le> e \<Longrightarrow> is_double (of_int n * pow2 e)"
proof -
  assume e: "- 1074 \<le> e"
  have "pow2 e = pow2 ((e + 1074) + (- 1074))" by simp
  also have "\<dots> = pow2 (e + 1074) * pow2 (- 1074)" by (rule pow2_add)
  also have "pow2 (e + 1074) = of_int (2 ^ nat (e + 1074))" using e by (intro pow2_nat) simp
  finally have "of_int n * pow2 e = of_int (n * 2 ^ nat (e + 1074)) * pow2 (- 1074)"
    by simp
  then show ?thesis unfolding is_double_def by blast
qed

lemma is_double_zero: "is_double 0"
  unfolding is_double_def by (rule exI [of _ 0]) simp

lemma is_double_int: "is_double (of_int n)"
  using is_double_pow2 [of 0 n] by (simp add: pow2.simps)

lemma fl_double: "fl x = Fin v \<Longrightarrow> is_double v"
proof (cases "x = 0")
  case True
  assume "fl x = Fin v"
  then show ?thesis using True by (simp add: fl_zero is_double_zero)
next
  case False
  assume v: "fl x = Fin v"
  from False show ?thesis
  proof (cases rule: fl_cases)
    case inf
    then show ?thesis using v by (simp split: if_splits)
  next
    case (fin e)
    define n where "n = (if x < 0 then - 1 else 1) * round_even (\<bar>x\<bar> / pow2 e)"
    have "v = of_int n * pow2 e"
      using fin(3) v unfolding n_def by simp
    then show ?thesis using is_double_pow2 [OF fin(1), of n] by (simp only:)
  qed
qed

lemma fl_pos:
  assumes "pow2 (- 1074) \<le> x"
  shows "fl x = PInf \<or> (\<exists>v. 0 < v \<and> fl x = Fin v)"
proof -
  have x: "0 < x" using assms pow2_pos [of "- 1074"] by linarith
  then have nz: "x \<noteq> 0" by simp
  from nz show ?thesis
  proof (cases rule: fl_cases)
    case inf
    then show ?thesis using x by simp
  next
    case (fin e)
    have ax: "\<bar>x\<bar> = x" using x by simp
    have "1 \<le> x / pow2 e" using scaled_ge1 [OF x] assms fin(2) ax by auto
    then have "1 \<le> round_even (x / pow2 e)" by (rule round_even_pos)
    then have "0 < (of_int (round_even (x / pow2 e)) :: rat) * pow2 e"
      using pow2_pos [of e] by (intro mult_pos_pos) simp_all
    then show ?thesis using fin(3) x ax by simp
  qed
qed

lemma fl_neg:
  assumes "x \<le> - pow2 (- 1074)"
  shows "fl x = NInf \<or> (\<exists>v. v < 0 \<and> fl x = Fin v)"
proof -
  have x: "x < 0" using assms pow2_pos [of "- 1074"] by linarith
  then have nz: "x \<noteq> 0" by simp
  from nz show ?thesis
  proof (cases rule: fl_cases)
    case inf
    then show ?thesis using x by simp
  next
    case (fin e)
    have ax: "\<bar>x\<bar> = - x" using x by simp
    have "1 \<le> (- x) / pow2 e" using scaled_ge1 [of "- x"] x assms fin(2) ax by auto
    then have "1 \<le> round_even ((- x) / pow2 e)" by (rule round_even_pos)
    then have "0 < (of_int (round_even ((- x) / pow2 e)) :: rat) * pow2 e"
      using pow2_pos [of e] by (intro mult_pos_pos) simp_all
    then show ?thesis using fin(3) x ax by simp
  qed
qed

lemma fl_nonneg:
  assumes "0 \<le> x"
  shows "fl x = PInf \<or> (\<exists>v. 0 \<le> v \<and> fl x = Fin v)"
proof (cases "x = 0")
  case True
  then show ?thesis by (simp add: fl_zero)
next
  case False
  then show ?thesis
  proof (cases rule: fl_cases)
    case inf
    then show ?thesis using assms by simp
  next
    case (fin e)
    have "0 \<le> \<bar>x\<bar> / pow2 e" using pow2_pos [of e] by simp
    then have "0 \<le> round_even (\<bar>x\<bar> / pow2 e)" by (rule round_even_nonneg)
    then have "0 \<le> (of_int (round_even (\<bar>x\<bar> / pow2 e)) :: rat) * pow2 e"
      using pow2_pos [of e] by (intro mult_nonneg_nonneg) simp_all
    then show ?thesis using fin(3) assms by simp
  qed
qed


lemma double_gap:
  assumes "is_double a" and "is_double b" and "b < a"
  shows "pow2 (- 1074) \<le> a - b"
proof -
  obtain k where k: "a = of_int k * pow2 (- 1074)" using assms(1) unfolding is_double_def by blast
  obtain l where l: "b = of_int l * pow2 (- 1074)" using assms(2) unfolding is_double_def by blast
  have "of_int l * pow2 (- 1074) < (of_int k :: rat) * pow2 (- 1074)" using assms(3) k l by simp
  then have "(of_int l :: rat) < of_int k"
    using pow2_pos [of "- 1074"] by (simp only: mult_less_cancel_right_pos)
  then have "l < k" by (simp only: of_int_less_iff)
  then have "1 \<le> k - l" by simp
  then have "(1::rat) \<le> of_int (k - l)" by (simp only: of_int_1_le_iff)
  then have "1 * pow2 (- 1074) \<le> of_int (k - l) * pow2 (- 1074)"
    using pow2_pos [of "- 1074"] by (intro mult_right_mono) simp_all
  then show ?thesis by (simp add: k l algebra_simps)
qed

lemma fl_sub_pos:
  assumes "is_double a" and "is_double b" and "b < a"
  shows "fl (a - b) = PInf \<or> (\<exists>v. 0 < v \<and> fl (a - b) = Fin v)"
  by (rule fl_pos [OF double_gap [OF assms]])

lemma fl_sub_neg:
  assumes "is_double a" and "is_double b" and "a < b"
  shows "fl (a - b) = NInf \<or> (\<exists>v. v < 0 \<and> fl (a - b) = Fin v)"
proof -
  have "pow2 (- 1074) \<le> b - a" by (rule double_gap [OF assms(2) assms(1) assms(3)])
  then have "a - b \<le> - pow2 (- 1074)" by linarith
  then show ?thesis by (rule fl_neg)
qed

lemma pow2_strict: "pow2 a \<le> x \<Longrightarrow> x < pow2 b \<Longrightarrow> a < b"
proof (rule ccontr)
  assume 1: "pow2 a \<le> x" and 2: "x < pow2 b" and "\<not> a < b"
  then have "pow2 b \<le> pow2 a" by (intro pow2_mono) simp
  then show False using 1 2 by linarith
qed

lemma round_even_int: "round_even (of_int n) = n"
  by (simp add: round_even_def Let_def)

lemma pow2_half: "pow2 e / 2 = pow2 (e - 1)"
proof -
  have "pow2 e = pow2 ((e - 1) + 1)" by simp
  also have "\<dots> = pow2 (e - 1) * pow2 1" by (rule pow2_add)
  also have "pow2 1 = 2" by (simp add: pow2_eq)
  finally show ?thesis by simp
qed

lemma fl_finite:
  assumes "x \<noteq> 0" and "\<bar>x\<bar> < pow2 1023"
  shows "\<exists>v. fl x = Fin v \<and> \<bar>v - x\<bar> \<le> pow2 (max (ilog2 \<bar>x\<bar> - 52) (- 1074)) / 2"
proof -
  define e where "e = max (ilog2 \<bar>x\<bar> - 52) (- 1074)"
  define n :: rat where "n = of_int (round_even (\<bar>x\<bar> / pow2 e))"
  have a: "0 < \<bar>x\<bar>" using assms(1) by simp
  have E: "ilog2 \<bar>x\<bar> < 1023"
    using ilog2_lower [OF a] assms(2) by (rule pow2_strict)
  have v: "fl x = Fin ((if x < 0 then - 1 else 1) * n * pow2 e)"
    using assms(1) E unfolding fl_def Let_def n_def e_def by simp
  have p: "0 < pow2 e" by (rule pow2_pos)
  have "\<bar>n - \<bar>x\<bar> / pow2 e\<bar> \<le> 1 / 2" unfolding n_def by (rule round_even_error)
  then have "\<bar>n - \<bar>x\<bar> / pow2 e\<bar> * pow2 e \<le> 1 / 2 * pow2 e"
    using p by (intro mult_right_mono) simp_all
  moreover have "\<bar>n - \<bar>x\<bar> / pow2 e\<bar> * pow2 e = \<bar>n * pow2 e - \<bar>x\<bar>\<bar>"
  proof -
    have "\<bar>n - \<bar>x\<bar> / pow2 e\<bar> * pow2 e = \<bar>(n - \<bar>x\<bar> / pow2 e) * pow2 e\<bar>"
      using p by (simp add: abs_mult)
    also have "(n - \<bar>x\<bar> / pow2 e) * pow2 e = n * pow2 e - \<bar>x\<bar>"
      using p by (simp add: field_simps)
    finally show ?thesis .
  qed
  ultimately have d: "\<bar>n * pow2 e - \<bar>x\<bar>\<bar> \<le> pow2 e / 2" by simp
  have "\<bar>(if x < 0 then - 1 else 1) * n * pow2 e - x\<bar> = \<bar>n * pow2 e - \<bar>x\<bar>\<bar>"
    by (cases "x < 0") (simp_all add: abs_minus_commute)
  then have "\<bar>(if x < 0 then - 1 else 1) * n * pow2 e - x\<bar> \<le> pow2 e / 2"
    using d by (simp only:)
  then show ?thesis using v unfolding e_def by blast
qed

lemma fl_error:
  assumes "\<bar>x\<bar> < pow2 1023"
  shows "\<exists>v. fl x = Fin v \<and> \<bar>v - x\<bar> \<le> \<bar>x\<bar> * pow2 (- 53) + pow2 (- 1075)"
proof (cases "x = 0")
  case True
  then show ?thesis using pow2_pos [of "- 1075"] by (simp add: fl_zero)
next
  case False
  then obtain v where v: "fl x = Fin v"
      and d: "\<bar>v - x\<bar> \<le> pow2 (max (ilog2 \<bar>x\<bar> - 52) (- 1074)) / 2"
    using fl_finite [OF False assms] by blast
  have a: "0 < \<bar>x\<bar>" using False by simp
  have "pow2 (max (ilog2 \<bar>x\<bar> - 52) (- 1074)) / 2 \<le> \<bar>x\<bar> * pow2 (- 53) + pow2 (- 1075)"
  proof (cases "- 1074 \<le> ilog2 \<bar>x\<bar> - 52")
    case True
    then have "max (ilog2 \<bar>x\<bar> - 52) (- 1074) = ilog2 \<bar>x\<bar> - 52" by simp
    then have "pow2 (max (ilog2 \<bar>x\<bar> - 52) (- 1074)) / 2 = pow2 (ilog2 \<bar>x\<bar> - 53)"
      by (simp add: pow2_half)
    also have "\<dots> = pow2 (ilog2 \<bar>x\<bar>) * pow2 (- 53)"
      by (simp add: pow2_add [symmetric])
    also have "\<dots> \<le> \<bar>x\<bar> * pow2 (- 53)"
      using ilog2_lower [OF a] pow2_pos [of "- 53"] by (intro mult_right_mono) simp_all
    finally show ?thesis using pow2_pos [of "- 1075"] by linarith
  next
    case False
    then have "max (ilog2 \<bar>x\<bar> - 52) (- 1074) = - 1074" by simp
    then have "pow2 (max (ilog2 \<bar>x\<bar> - 52) (- 1074)) / 2 = pow2 (- 1075)"
      by (simp add: pow2_half)
    moreover have "0 \<le> \<bar>x\<bar> * pow2 (- 53)" using pow2_pos [of "- 53"] by simp
    ultimately show ?thesis by linarith
  qed
  then show ?thesis using v d by (intro exI [of _ v]) simp
qed

text \<open>A difference of two doubles is rounded with a relative error only.\<close>

lemma fl_sub_error:
  assumes "is_double a" and "is_double b" and "\<bar>a - b\<bar> < pow2 1023"
  shows "\<exists>v. fl (a - b) = Fin v \<and> \<bar>v - (a - b)\<bar> \<le> \<bar>a - b\<bar> * pow2 (- 53)"
proof (cases "a - b = 0")
  case True
  then show ?thesis by (simp add: fl_zero)
next
  case False
  let ?x = "a - b"
  obtain v where v: "fl ?x = Fin v"
      and d: "\<bar>v - ?x\<bar> \<le> pow2 (max (ilog2 \<bar>?x\<bar> - 52) (- 1074)) / 2"
    using fl_finite [OF False assms(3)] by blast
  have ax: "0 < \<bar>?x\<bar>" using False by simp
  have pp: "0 < pow2 (- 53)" by (rule pow2_pos)
  show ?thesis
  proof (cases "- 1074 \<le> ilog2 \<bar>?x\<bar> - 52")
    case True
    from True have "max (ilog2 \<bar>?x\<bar> - 52) (- 1074) = ilog2 \<bar>?x\<bar> - 52" by simp
    then have "pow2 (max (ilog2 \<bar>?x\<bar> - 52) (- 1074)) / 2 = pow2 (ilog2 \<bar>?x\<bar> - 53)"
      by (simp add: pow2_half)
    also have "\<dots> = pow2 (ilog2 \<bar>?x\<bar>) * pow2 (- 53)"
      by (simp add: pow2_add [symmetric])
    also have "\<dots> \<le> \<bar>?x\<bar> * pow2 (- 53)"
      using ilog2_lower [OF ax] pp by (intro mult_right_mono) simp_all
    finally show ?thesis using v d by (intro exI [of _ v]) simp
  next
    case sub: False
    then have e: "max (ilog2 \<bar>?x\<bar> - 52) (- 1074) = - 1074" by simp
    obtain k where k: "a = of_int k * pow2 (- 1074)" using assms(1) unfolding is_double_def by blast
    obtain l where l: "b = of_int l * pow2 (- 1074)" using assms(2) unfolding is_double_def by blast
    have xk: "?x = of_int (k - l) * pow2 (- 1074)"
      unfolding k l by (simp only: of_int_diff left_diff_distrib)
    have "\<bar>?x\<bar> = \<bar>of_int (k - l)\<bar> * \<bar>pow2 (- 1074)\<bar>"
      unfolding xk by (rule abs_mult)
    also have "\<bar>pow2 (- 1074)\<bar> = pow2 (- 1074)" using pow2_pos [of "- 1074"] by simp
    also have "\<bar>of_int (k - l) :: rat\<bar> = of_int \<bar>k - l\<bar>" by simp
    finally have x: "\<bar>?x\<bar> = of_int \<bar>k - l\<bar> * pow2 (- 1074)" .
    have q: "\<bar>?x\<bar> / pow2 (- 1074) = of_int \<bar>k - l\<bar>"
      unfolding x using pow2_pos [of "- 1074"] by simp
    have E: "ilog2 \<bar>?x\<bar> < 1023"
      using ilog2_lower [OF ax] assms(3) by (rule pow2_strict)
    have r: "round_even (\<bar>?x\<bar> / pow2 (- 1074)) = \<bar>k - l\<bar>"
      unfolding q by (rule round_even_int)
    have "fl ?x = Fin ((if ?x < 0 then - 1 else 1) * of_int (round_even (\<bar>?x\<bar> / pow2 (- 1074))) * pow2 (- 1074))"
      using False E unfolding fl_def Let_def e by simp
    also have "(if ?x < 0 then - 1 else 1) * of_int (round_even (\<bar>?x\<bar> / pow2 (- 1074))) * pow2 (- 1074)
                 = (if ?x < 0 then - 1 else 1) * (of_int \<bar>k - l\<bar> * pow2 (- 1074))"
      by (simp only: r mult.assoc)
    also have "of_int \<bar>k - l\<bar> * pow2 (- 1074) = \<bar>?x\<bar>" by (simp only: x)
    also have "(if ?x < 0 then - 1 else 1) * \<bar>?x\<bar> = ?x" by simp
    finally have "fl ?x = Fin ?x" .
    then show ?thesis using pp by (intro exI [of _ ?x]) simp
  qed
qed

lemma pow2_values:
  "pow2 (- 53) = 1 / 9007199254740992" "pow2 (- 7) = 1 / 128" "pow2 8 = 256" "pow2 9 = 512"
  by (simp_all add: pow2_eq power_int_minus)

text \<open>Every number a coercion returns is a double.\<close>

lemma StringToNumber_double: "StringToNumber s = Fin r \<Longrightarrow> is_double r"
  unfolding StringToNumber_def Let_def
  by (auto split: if_splits option.splits dest: fl_double simp: is_double_zero)

lemma ToNumber_double: "ToNumber v = Fin r \<Longrightarrow> is_double r"
proof (cases v)
  case (JBool b)
  assume "ToNumber v = Fin r"
  then show ?thesis using JBool is_double_int [of 1] is_double_zero by (auto split: if_splits)
next
  case (JNum q)
  assume "ToNumber v = Fin r"
  then show ?thesis using JNum by (auto dest: fl_double)
next
  case (JStr s)
  assume "ToNumber v = Fin r"
  then show ?thesis using JStr by (auto dest: StringToNumber_double)
next
  case (JArr xs)
  assume "ToNumber v = Fin r"
  then show ?thesis using JArr by (auto dest: StringToNumber_double)
qed (auto simp: is_double_zero)

text \<open>
  The sign of a difference of two doubles is the sign of the exact difference: a difference
  that is not zero is at least \<open>2\<^sup>-\<^sup>1\<^sup>0\<^sup>7\<^sup>4\<close> in magnitude and does not round to zero.
\<close>

lemma comes_after_sub:
  assumes "a \<noteq> NaN" and "b \<noteq> NaN"
    and "\<And>r. a = Fin r \<Longrightarrow> is_double r" and "\<And>r. b = Fin r \<Longrightarrow> is_double r"
  shows "comes_after (num_sub a b) = (rank b < rank a)"
proof (cases a)
  case fa: (Fin x)
  show ?thesis
  proof (cases b)
    case fb: (Fin y)
    have dx: "is_double x" using assms(3) fa by simp
    have dy: "is_double y" using assms(4) fb by simp
    consider "y < x" | "x = y" | "x < y" by linarith
    then show ?thesis
    proof cases
      case 1
      then show ?thesis
        using fl_sub_pos [OF dx dy 1] fa fb by (auto simp: comes_after_def rank_def)
    next
      case 2
      then show ?thesis using fa fb by (simp add: comes_after_def rank_def fl_zero)
    next
      case 3
      then show ?thesis
        using fl_sub_neg [OF dx dy 3] fa fb by (auto simp: comes_after_def rank_def)
    qed
  qed (use assms fa in \<open>auto simp: comes_after_def rank_def\<close>)
qed (use assms in \<open>cases b; auto simp: comes_after_def rank_def\<close>)+

lemma comes_after_ToNumber:
  assumes "ToNumber u \<noteq> NaN" and "ToNumber v \<noteq> NaN"
  shows "comes_after (num_sub (ToNumber u) (ToNumber v)) = (rank (ToNumber v) < rank (ToNumber u))"
  using assms by (intro comes_after_sub) (auto dest: ToNumber_double)

section \<open>Properties of the list page\<close>

subsection \<open>Sorting\<close>

lemma insert_sorted_insort:
  assumes "\<forall>y \<in> set ys. comes_after (cmp x y) = (f y < f x)"
  shows "insert_sorted cmp x ys = insort_key f x ys"
  using assms by (induction ys) (auto simp: not_less)

lemma js_sort_sort_key:
  assumes "\<forall>x \<in> set xs. \<forall>y \<in> set xs. comes_after (cmp x y) = (f y < f x)"
  shows "js_sort cmp xs = sort_key f xs"
  using assms
proof (induction xs)
  case Nil
  then show ?case by (simp add: js_sort_def)
next
  case (Cons x xs)
  have ih: "js_sort cmp xs = sort_key f xs" using Cons by simp
  have "insert_sorted cmp x (sort_key f xs) = insort_key f x (sort_key f xs)"
    by (rule insert_sorted_insort) (use Cons.prems in simp)
  then show ?case using ih by (simp add: js_sort_def sort_key_def)
qed

lemma mset_insert_sorted: "mset (insert_sorted cmp x ys) = add_mset x (mset ys)"
  by (induction ys) auto

lemma mset_js_sort: "mset (js_sort cmp xs) = mset xs"
  by (induction xs) (auto simp: js_sort_def mset_insert_sorted)

lemma neg_rank_less: "(neg_rank a < neg_rank b) = (rank b < rank a)"
  by (cases "rank a"; cases "rank b") (auto simp: neg_rank_def)

lemma neg_rank_le: "(neg_rank a \<le> neg_rank b) = (rank b \<le> rank a)"
  by (cases "rank a"; cases "rank b") (auto simp: neg_rank_def)

lemma rank_le:
  assumes "a \<noteq> NaN" "b \<noteq> NaN"
  shows "(rank a \<le> rank b) = num_le a b"
  using assms by (cases a; cases b) (auto simp: num_le_def rank_def)

lemma rank_inj: "rank a = rank b \<Longrightarrow> a = b"
  by (cases a; cases b) (auto simp: rank_def)

lemma neg_rank_inj: "neg_rank a = neg_rank b \<Longrightarrow> a = b"
  by (rule rank_inj) (auto simp: neg_rank_def prod_eq_iff)

lemma sort_by_sort_key:
  assumes "sortVal \<in> directional" and "\<forall>p \<in> set xs. sort_number sortVal p \<noteq> NaN"
  shows "sort_by sortVal xs = sort_key (position sortVal) xs"
proof -
  consider "sortVal = ''price-asc''" | "sortVal = ''price-desc''"
    | "sortVal = ''slots-asc''" | "sortVal = ''slots-desc''"
    using assms(1) by (auto simp: directional_def)
  then show ?thesis
  proof cases
    case 1
    have "js_sort price_asc xs = sort_key (position sortVal) xs"
      by (rule js_sort_sort_key)
         (use assms(2) 1 in \<open>auto simp: price_asc_def position_def sort_number_def comes_after_ToNumber\<close>)
    then show ?thesis using 1 by (simp add: sort_by_def)
  next
    case 2
    have "js_sort price_desc xs = sort_key (position sortVal) xs"
      by (rule js_sort_sort_key)
         (use assms(2) 2 in \<open>auto simp: price_desc_def position_def sort_number_def comes_after_ToNumber neg_rank_less\<close>)
    then show ?thesis using 2 by (simp add: sort_by_def)
  next
    case 3
    have "js_sort slots_asc xs = sort_key (position sortVal) xs"
      by (rule js_sort_sort_key)
         (use assms(2) 3 in \<open>auto simp: slots_asc_def position_def sort_number_def comes_after_ToNumber\<close>)
    then show ?thesis using 3 by (simp add: sort_by_def)
  next
    case 4
    have "js_sort slots_desc xs = sort_key (position sortVal) xs"
      by (rule js_sort_sort_key)
         (use assms(2) 4 in \<open>auto simp: slots_desc_def position_def sort_number_def comes_after_ToNumber neg_rank_less\<close>)
    then show ?thesis using 4 by (simp add: sort_by_def)
  qed
qed

lemma position_le:
  assumes "sort_number sortVal a \<noteq> NaN" and "sort_number sortVal b \<noteq> NaN"
  shows "(position sortVal a \<le> position sortVal b) = in_order sortVal a b"
  using assms by (auto simp: position_def in_order_def neg_rank_le rank_le)

lemma position_eq:
  "(position sortVal a = position sortVal b) = (sort_number sortVal a = sort_number sortVal b)"
  by (auto simp: position_def dest: rank_inj neg_rank_inj)

lemma mset_sort_by: "mset (sort_by sortVal xs) = mset xs"
  by (simp add: sort_by_def mset_js_sort)

lemma set_sort_by: "set (sort_by sortVal xs) = set xs"
  using mset_sort_by [of sortVal xs] by (metis set_mset_mset)

lemma sort_by_in_order:
  assumes "sortVal \<in> directional" and "\<forall>p \<in> set xs. sort_number sortVal p \<noteq> NaN"
  shows "sorted_wrt (in_order sortVal) (sort_by sortVal xs)"
proof -
  have "sorted (map (position sortVal) (sort_key (position sortVal) xs))"
    by (rule sorted_sort_key)
  then have "sorted_wrt (\<lambda>a b. position sortVal a \<le> position sortVal b)
               (sort_key (position sortVal) xs)"
    by (simp add: sorted_map)
  then have "sorted_wrt (in_order sortVal) (sort_key (position sortVal) xs)"
    by (rule sorted_wrt_mono_rel [rotated]) (use assms(2) in \<open>simp add: position_le\<close>)
  then show ?thesis using assms by (simp add: sort_by_sort_key)
qed

lemma sort_by_idem:
  assumes "sortVal \<in> directional" and "\<forall>p \<in> set xs. sort_number sortVal p \<noteq> NaN"
  shows "sort_by sortVal (sort_by sortVal xs) = sort_by sortVal xs"
proof -
  have "sort_by sortVal (sort_by sortVal xs) = sort_key (position sortVal) (sort_by sortVal xs)"
    by (rule sort_by_sort_key) (use assms in \<open>simp_all add: set_sort_by\<close>)
  also have "\<dots> = sort_key (position sortVal) (sort_key (position sortVal) xs)"
    using assms by (simp add: sort_by_sort_key)
  also have "\<dots> = sort_key (position sortVal) xs"
    by (rule sort_key_id_if_sorted) (rule sorted_sort_key)
  finally show ?thesis using assms by (simp add: sort_by_sort_key)
qed

subsection \<open>Recomputing the view\<close>

lemma rendered_applyFilters:
  "rendered (applyFilters b st)
     = sort_by (sort_value st) (filter (matches b (query_of b st)) (store st (products st)))"
  by (simp add: applyFilters_def renderList_def alloc_def rendered_def Let_def)

lemma container_applyFilters:
  "container (applyFilters b st)
     = (if rendered (applyFilters b st) = [] then [Html noResultsHtml]
        else map (createCard b) (rendered (applyFilters b st)))"
  by (simp add: applyFilters_def renderList_def alloc_def rendered_def Let_def)

lemma applyFilters_frame:
  assumes "r < fresh st"
  shows "store (applyFilters b st) r = store st r"
  using assms by (simp add: applyFilters_def renderList_def alloc_def Let_def)

lemma applyFilters_products: "products (applyFilters b st) = products st"
  by (simp add: applyFilters_def renderList_def alloc_def Let_def)

lemma sort_by_stable_key:
  assumes "sortVal \<in> directional" and "\<forall>p \<in> set xs. sort_number sortVal p \<noteq> NaN"
  shows "filter (\<lambda>p. sort_number sortVal p = k) (sort_by sortVal xs)
       = filter (\<lambda>p. sort_number sortVal p = k) xs"
proof -
  define k' where "k' = (if sortVal = ''price-desc'' \<or> sortVal = ''slots-desc''
                          then neg_rank k else rank k)"
  have eq: "(position sortVal p = k') = (sort_number sortVal p = k)" for p
    by (auto simp: position_def k'_def dest: rank_inj neg_rank_inj)
  have "filter (\<lambda>p. position sortVal p = k') (sort_key (position sortVal) xs)
      = filter (\<lambda>p. position sortVal p = k') xs"
    by (rule sort_key_stable)
  then show ?thesis using assms by (simp add: sort_by_sort_key eq)
qed

lemma query_of_eq: "query_of b st = toLowerCase b (trim (search_value st))"
  by (simp add: query_of_def js_or_def)

lemma applyFilters_fresh: "fresh (applyFilters b st) = Suc (Suc (fresh st))"
  by (simp add: applyFilters_def renderList_def alloc_def Let_def)

lemma applyFilters_inputs:
  "search_value (applyFilters b st) = search_value st"
  "sort_value (applyFilters b st) = sort_value st"
  by (simp_all add: applyFilters_def renderList_def alloc_def Let_def)

lemma sample_page_simps:
  "store (page_with xs q sv) 0 = xs"
  "sort_value (page_with xs q sv) = sv"
  "search_value (page_with xs q sv) = q"
  "products (page_with xs q sv) = 0"
  "fresh (page_with xs q sv) = 2"
  by (simp_all add: page_with_def)

text \<open>
  Claim C6. Under each of the four directional sort keys the rendered list holds exactly the
  records that pass the filter, ordered by the number the key names (\<^verbatim>\<open>Number(price)\<close> or
  \<^verbatim>\<open>Number(slots)\<close>, ascending or descending); records with the same number keep their
  original relative order; and sorting the output again with the same key returns it
  unchanged. The records that pass the filter are taken to have a number under the key
  (\<^verbatim>\<open>Number\<close> of the field is not \<^verbatim>\<open>NaN\<close>): for other records ECMAScript leaves the order to
  the engine.
\<close>

theorem directional_sort:
  assumes "sort_value st \<in> directional"
    and "\<forall>p \<in> set (filter (matches b (query_of b st)) (store st (products st))).
           sort_number (sort_value st) p \<noteq> NaN"
  shows "mset (rendered (applyFilters b st))
           = mset (filter (matches b (query_of b st)) (store st (products st)))
       \<and> sorted_wrt (in_order (sort_value st)) (rendered (applyFilters b st))
       \<and> (\<forall>k. filter (\<lambda>p. sort_number (sort_value st) p = k) (rendered (applyFilters b st))
              = filter (\<lambda>p. sort_number (sort_value st) p = k)
                  (filter (matches b (query_of b st)) (store st (products st))))
       \<and> sort_by (sort_value st) (rendered (applyFilters b st)) = rendered (applyFilters b st)"
  using assms
  by (simp add: rendered_applyFilters mset_sort_by sort_by_in_order sort_by_stable_key sort_by_idem)

theorem directional_sort_witness:
  "rendered (applyFilters sample_browser
              (page_with [plate_a, plate_b, plate_c] ''plate'' ''price-asc''))
     = [plate_b, plate_a, plate_c]
   \<and> sorted_wrt (in_order ''price-asc'') [plate_b, plate_a, plate_c]
   \<and> filter (\<lambda>p. sort_number ''price-asc'' p = Fin 900) [plate_b, plate_a, plate_c]
       = [plate_a, plate_c]
   \<and> sort_by ''price-asc'' [plate_b, plate_a, plate_c] = [plate_b, plate_a, plate_c]"
proof -
  let ?st = "page_with [plate_a, plate_b, plate_c] ''plate'' ''price-asc''"
  have q: "query_of sample_browser ?st = ''plate''"
    unfolding query_of_eq sample_page_simps by code_simp
  have kept: "filter (matches sample_browser ''plate'') [plate_a, plate_b, plate_c] = [plate_a, plate_b, plate_c]"
    by code_simp
  have h1: "sort_value ?st \<in> directional"
    by (simp add: sample_page_simps directional_def)
  have h2: "\<forall>p \<in> set (filter (matches sample_browser (query_of sample_browser ?st)) (store ?st (products ?st))).
              sort_number (sort_value ?st) p \<noteq> NaN"
    unfolding q sample_page_simps kept by code_simp
  have r: "rendered (applyFilters sample_browser ?st) = [plate_b, plate_a, plate_c]"
    unfolding rendered_applyFilters q sample_page_simps kept by code_simp
  have f: "filter (\<lambda>p. sort_number ''price-asc'' p = Fin 900) [plate_b, plate_a, plate_c]
             = [plate_a, plate_c]"
    by code_simp
  from directional_sort [OF h1 h2]
  have "sorted_wrt (in_order ''price-asc'') [plate_b, plate_a, plate_c]
      \<and> sort_by ''price-asc'' [plate_b, plate_a, plate_c] = [plate_b, plate_a, plate_c]"
    unfolding r sample_page_simps by blast
  then show ?thesis using r f by blast
qed

text \<open>
  Claim C5. A sort key outside the four directional ones is treated exactly like
  \<^verbatim>\<open>relevance\<close>: no branch of the chain sorts, so the rendered list is the filtered list in
  its original order (a subsequence of the record set), and list and container are those
  that \<^verbatim>\<open>relevance\<close> gives. \<open>applyFilters\<close> has no error result: it is a total function of
  the page.
\<close>

theorem unknown_sort_key:
  assumes "sort_value st \<notin> directional"
  shows "rendered (applyFilters b st) = filter (matches b (query_of b st)) (store st (products st))
       \<and> subseq (rendered (applyFilters b st)) (store st (products st))
       \<and> rendered (applyFilters b st) = rendered (applyFilters b (st\<lparr>sort_value := ''relevance''\<rparr>))
       \<and> container (applyFilters b st)
           = container (applyFilters b (st\<lparr>sort_value := ''relevance''\<rparr>))"
proof -
  have a: "sort_by (sort_value st) xs = xs" for xs
    using assms by (auto simp: sort_by_def directional_def)
  have b: "sort_by ''relevance'' xs = xs" for xs
    by (simp add: sort_by_def)
  have q: "query_of b (st\<lparr>sort_value := ''relevance''\<rparr>) = query_of b st"
    by (simp add: query_of_def)
  have r: "rendered (applyFilters b st) = filter (matches b (query_of b st)) (store st (products st))"
    by (simp add: rendered_applyFilters a)
  have r': "rendered (applyFilters b (st\<lparr>sort_value := ''relevance''\<rparr>))
              = filter (matches b (query_of b st)) (store st (products st))"
    by (simp add: rendered_applyFilters b q)
  show ?thesis
    by (simp add: container_applyFilters r r')
qed

theorem unknown_sort_key_witness:
  "rendered (applyFilters sample_browser
              (page_with [plate_a, plate_b, plate_c] ''matte'' ''newest''))
     = [plate_a, plate_c]
   \<and> subseq [plate_a, plate_c] [plate_a, plate_b, plate_c]
   \<and> rendered (applyFilters sample_browser
              ((page_with [plate_a, plate_b, plate_c] ''matte'' ''newest'')\<lparr>sort_value := ''relevance''\<rparr>))
     = [plate_a, plate_c]"
proof -
  let ?st = "page_with [plate_a, plate_b, plate_c] ''matte'' ''newest''"
  have h: "sort_value ?st \<notin> directional"
    by (simp add: sample_page_simps directional_def)
  have q: "query_of sample_browser ?st = ''matte''"
    unfolding query_of_eq sample_page_simps by code_simp
  have kept: "filter (matches sample_browser ''matte'') [plate_a, plate_b, plate_c] = [plate_a, plate_c]"
    by code_simp
  from unknown_sort_key [OF h, of sample_browser]
  show ?thesis
    unfolding q sample_page_simps kept by metis
qed

lemma handle_frame:
  assumes "r < fresh st"
  shows "store (handle b i st) r = store st r"
  using assms by (cases i) (simp_all add: applyFilters_frame)

lemma handle_products: "products (handle b i st) = products st"
  by (cases i) (simp_all add: applyFilters_products)

lemma handle_fresh: "fresh st \<le> fresh (handle b i st)"
  by (cases i) (simp_all add: applyFilters_def renderList_def alloc_def Let_def)

lemma session_frame:
  assumes "r < fresh st"
  shows "store (session b inputs st) r = store st r \<and> products (session b inputs st) = products st"
  using assms
proof (induction inputs arbitrary: st)
  case Nil
  then show ?case by (simp add: session_def)
next
  case (Cons i inputs)
  have "r < fresh (handle b i st)"
    using Cons.prems handle_fresh [of st b i] by simp
  from Cons.IH [OF this] show ?case
    using Cons.prems by (simp add: session_def handle_frame handle_products)
qed

text \<open>
  Claim C9. Recomputing the view leaves the record set alone: \<^verbatim>\<open>products\<close> refers to the same
  array, that array holds the same records in the same order, and the array that is sorted
  and rendered is another one. This holds after one recomputation and after any sequence of
  searches and sort selections. (The reference \<^verbatim>\<open>products\<close> holds is an allocated one.)
\<close>

theorem products_array_unchanged:
  assumes "products st < fresh st"
  shows "products (applyFilters b st) = products st
       \<and> store (applyFilters b st) (products st) = store st (products st)
       \<and> lastRendered (applyFilters b st) \<noteq> products st
       \<and> products (session b inputs st) = products st
       \<and> store (session b inputs st) (products st) = store st (products st)"
proof -
  have "lastRendered (applyFilters b st) \<noteq> products st"
    using assms by (simp add: applyFilters_def renderList_def alloc_def Let_def)
  then show ?thesis
    using assms by (simp add: applyFilters_products applyFilters_frame session_frame)
qed
theorem products_array_unchanged_witness:
  "store (session sample_browser [Search ''matte'', Sort ''price-desc'', Search ''  '']
            (page_with [plate_a, plate_b, plate_c] [] ''relevance'')) 0
     = [plate_a, plate_b, plate_c]
   \<and> rendered (session sample_browser [Search ''matte'', Sort ''price-desc'']
            (page_with [plate_a, plate_b, plate_c] [] ''relevance''))
     = [plate_a, plate_c]"
proof -
  let ?st = "page_with [plate_a, plate_b, plate_c] [] ''relevance''"
  have h: "products ?st < fresh ?st"
    by (simp add: sample_page_simps)
  have "rendered (session sample_browser [Search ''matte'', Sort ''price-desc''] ?st)
          = sort_by ''price-desc'' (filter (matches sample_browser (toLowerCase sample_browser (trim ''matte'')))
              [plate_a, plate_b, plate_c])"
    by (simp add: session_def rendered_applyFilters applyFilters_products applyFilters_frame
          applyFilters_fresh applyFilters_inputs query_of_eq sample_page_simps)
  also have "\<dots> = [plate_a, plate_c]"
    by code_simp
  finally have r: "rendered (session sample_browser [Search ''matte'', Sort ''price-desc''] ?st)
             = [plate_a, plate_c]" .
  from products_array_unchanged [OF h, of sample_browser
        "[Search ''matte'', Sort ''price-desc'', Search ''  '']"]
  have "store (session sample_browser [Search ''matte'', Sort ''price-desc'', Search ''  ''] ?st) 0
          = [plate_a, plate_b, plate_c]"
    unfolding sample_page_simps by blast
  then show ?thesis using r by blast
qed

subsection \<open>Filtering\<close>

lemma toLowerCase_empty: "toLowerCase b [] = []"
  by (simp add: toLowerCase_def is_ascii_def)

lemma field_text_or:
  assumes "\<not> blanked v"
  shows "toLowerCase b (ToString (js_or v (JStr ''''))) = field_text b v"
  using assms by (cases v) (auto simp: js_or_def field_text_def toLowerCase_empty)

lemma matches_searchable:
  assumes "searchable p"
  shows "matches b q p = (q = [] \<or> sublist q (field_text b (name p))
           \<or> sublist q (field_text b (finish p)) \<or> sublist q (field_text b (slots p)))"
  using assms by (simp add: matches_def searchable_def field_text_or includes_str_def)

text \<open>No white space character begins with another one, so a text of white space is trimmed away.\<close>

lemma white_space_prefix_free:
  "\<forall>t \<in> set white_space. \<forall>u \<in> set white_space. prefix u t \<longrightarrow> u = t"
  by code_simp

lemma white_space_nonempty: "\<forall>t \<in> set white_space. t \<noteq> []"
  by code_simp

lemma leading_nil: "leading ts [] = 0"
  by (auto simp: leading_def find_Some_iff split: option.splits)

lemma strip_nil: "strip ts [] = []"
  by (subst strip.simps) (simp add: leading_nil)

lemma leading_token:
  assumes "t \<in> set white_space"
  shows "leading white_space (t @ s) = length t"
proof -
  have "find (\<lambda>u. prefix u (t @ s)) white_space \<noteq> None"
    using assms by (auto simp: find_None_iff)
  then obtain u where f: "find (\<lambda>u. prefix u (t @ s)) white_space = Some u"
    by blast
  then have u: "u \<in> set white_space" and p: "prefix u (t @ s)"
    by (auto simp: find_Some_iff)
  have "prefix u t \<or> prefix t u"
    using p by (meson prefix_same_cases prefixI)
  then have "u = t"
    using white_space_prefix_free assms u by blast
  then show ?thesis using f by (simp add: leading_def)
qed

lemma strip_token:
  assumes "t \<in> set white_space"
  shows "strip white_space (t @ s) = strip white_space s"
proof -
  have "t \<noteq> []" using assms white_space_nonempty by blast
  then show ?thesis
    by (subst strip.simps) (simp add: leading_token [OF assms])
qed

lemma strip_concat:
  assumes "set ts \<subseteq> set white_space"
  shows "strip white_space (concat ts @ s) = strip white_space s"
  using assms by (induction ts) (simp_all add: strip_token)

lemma trim_white:
  assumes "set ts \<subseteq> set white_space"
  shows "trim (concat ts) = []"
proof -
  have "strip white_space (concat ts) = []"
    using strip_concat [OF assms, of "[]"] by (simp add: strip_nil)
  then show ?thesis by (simp add: trim_def strip_nil)
qed

lemma matches_empty: "matches b [] p"
  by (simp add: matches_def)

text \<open>
  Claim C1, as amended. The filter tests \<^verbatim>\<open>String(p.field || "")\<close>, so a field that is absent
  or \<^verbatim>\<open>null\<close> is searched as the empty string and not as \<^verbatim>\<open>undefined\<close> or \<^verbatim>\<open>null\<close>. For
  every record set in which no name, finish or slots is the number 0 or \<^verbatim>\<open>false\<close>, every
  query and every engine's \<^verbatim>\<open>toLowerCase\<close>, the rendered list holds exactly the records for
  which the trimmed, lowercased query is empty or a substring of the lowercased string form
  of the name, of the finish or of the slots (in the order the sort key gives them); and a
  query that is empty or made of white space and line terminators only keeps every record of
  any record set.
\<close>

theorem filter_keeps_matching:
  "((\<forall>p \<in> set (store st (products st)). searchable p) \<longrightarrow>
      rendered (applyFilters b st)
        = sort_by (sort_value st)
            (filter (\<lambda>p. toLowerCase b (trim (search_value st)) = []
                        \<or> sublist (toLowerCase b (trim (search_value st))) (field_text b (name p))
                        \<or> sublist (toLowerCase b (trim (search_value st))) (field_text b (finish p))
                        \<or> sublist (toLowerCase b (trim (search_value st))) (field_text b (slots p)))
               (store st (products st)))
    \<and> set (rendered (applyFilters b st))
        = {p \<in> set (store st (products st)).
             toLowerCase b (trim (search_value st)) = []
             \<or> sublist (toLowerCase b (trim (search_value st))) (field_text b (name p))
             \<or> sublist (toLowerCase b (trim (search_value st))) (field_text b (finish p))
             \<or> sublist (toLowerCase b (trim (search_value st))) (field_text b (slots p))})
   \<and> ((\<exists>ts. set ts \<subseteq> set white_space \<and> search_value st = concat ts) \<longrightarrow>
        mset (rendered (applyFilters b st)) = mset (store st (products st)))"
proof (intro conjI impI)
  assume s: "\<forall>p \<in> set (store st (products st)). searchable p"
  let ?q = "toLowerCase b (trim (search_value st))"
  let ?P = "\<lambda>p. ?q = [] \<or> sublist ?q (field_text b (name p))
                \<or> sublist ?q (field_text b (finish p)) \<or> sublist ?q (field_text b (slots p))"
  have "filter (matches b ?q) (store st (products st)) = filter ?P (store st (products st))"
    by (rule filter_cong) (use s in \<open>simp_all add: matches_searchable\<close>)
  then show r: "rendered (applyFilters b st) = sort_by (sort_value st) (filter ?P (store st (products st)))"
    by (simp add: rendered_applyFilters query_of_eq)
  show "set (rendered (applyFilters b st)) = {p \<in> set (store st (products st)). ?P p}"
    unfolding r set_sort_by by simp
next
  assume "\<exists>ts. set ts \<subseteq> set white_space \<and> search_value st = concat ts"
  then obtain ts where a: "set ts \<subseteq> set white_space" and c: "search_value st = concat ts"
    by blast
  have "trim (search_value st) = []"
    unfolding c by (rule trim_white [OF a])
  then have "query_of b st = []"
    by (simp only: query_of_eq toLowerCase_empty)
  then show "mset (rendered (applyFilters b st)) = mset (store st (products st))"
    by (simp add: rendered_applyFilters mset_sort_by matches_empty)
qed

text \<open>
  The claim as stated fails on a record whose finish is \<^verbatim>\<open>null\<close>: the string form of \<^verbatim>\<open>null\<close>
  is \<^verbatim>\<open>null\<close>, which contains the query \<^verbatim>\<open>null\<close>, and the filter drops the record.
\<close>

theorem filter_null_field_counterexample:
  "spec_matches sample_browser (toLowerCase sample_browser (trim ''null'')) plate_null_finish
   \<and> rendered (applyFilters sample_browser (page_with [plate_null_finish] ''null'' ''relevance''))
       = []"
proof -
  have "spec_matches sample_browser (toLowerCase sample_browser (trim ''null'')) plate_null_finish"
    by code_simp
  moreover have "sort_by ''relevance''
      (filter (matches sample_browser (toLowerCase sample_browser (trim ''null''))) [plate_null_finish]) = []"
    by code_simp
  ultimately show ?thesis
    by (simp add: rendered_applyFilters query_of_eq sample_page_simps)
qed

text \<open>
  The guard also blanks a field that is present with the value 0: a record with no slots is
  not found by the query \<^verbatim>\<open>0\<close>, although the card prints \<^verbatim>\<open>Slots: 0\<close>.
\<close>

lemma zero_slots_not_found:
  "spec_matches sample_browser (toLowerCase sample_browser (trim ''0'')) plate_no_slots
   \<and> rendered (applyFilters sample_browser (page_with [plate_no_slots] ''0'' ''relevance'')) = []"
proof -
  have "spec_matches sample_browser (toLowerCase sample_browser (trim ''0'')) plate_no_slots"
    by code_simp
  moreover have "sort_by ''relevance''
      (filter (matches sample_browser (toLowerCase sample_browser (trim ''0''))) [plate_no_slots]) = []"
    by code_simp
  ultimately show ?thesis
    by (simp add: rendered_applyFilters query_of_eq sample_page_simps)
qed

theorem filter_keeps_matching_witness:
  "rendered (applyFilters sample_browser
      (page_with [plate_a, plate_b, plate_null_finish, plate_c] ''  MATTE '' ''slots-desc''))
     = [plate_c, plate_a]
   \<and> field_text sample_browser (finish plate_a) = ''matte blue''
   \<and> field_text sample_browser (finish plate_null_finish) = []
   \<and> rendered (applyFilters sample_browser
      (page_with [plate_a, plate_cafe, plate_c] nbsp_cafe_query ''relevance''))
     = [plate_cafe]
   \<and> rendered (applyFilters sample_browser
      (page_with [plate_a, plate_b, plate_null_finish, plate_c] blank_query ''relevance''))
     = [plate_a, plate_b, plate_null_finish, plate_c]"
proof -
  let ?xs = "[plate_a, plate_b, plate_null_finish, plate_c]"
  let ?ys = "[plate_a, plate_cafe, plate_c]"
  let ?st = "page_with ?xs ''  MATTE '' ''slots-desc''"
  let ?st' = "page_with ?xs blank_query ''relevance''"
  let ?st'' = "page_with ?ys nbsp_cafe_query ''relevance''"
  have h: "\<forall>p \<in> set (store ?st (products ?st)). searchable p"
    unfolding sample_page_simps by code_simp
  have q: "toLowerCase sample_browser (trim ''  MATTE '') = ''matte''"
    by code_simp
  have e: "sort_by ''slots-desc''
            (filter (\<lambda>p. ''matte'' = [] \<or> sublist ''matte'' (field_text sample_browser (name p))
                        \<or> sublist ''matte'' (field_text sample_browser (finish p))
                        \<or> sublist ''matte'' (field_text sample_browser (slots p))) ?xs)
             = [plate_c, plate_a]"
    by code_simp
  have f: "field_text sample_browser (finish plate_a) = ''matte blue''
         \<and> field_text sample_browser (finish plate_null_finish) = []"
    by code_simp
  have h'': "\<forall>p \<in> set (store ?st'' (products ?st'')). searchable p"
    unfolding sample_page_simps by code_simp
  have q'': "toLowerCase sample_browser (trim nbsp_cafe_query) = ''caf'' @ [CHR 0xC3, CHR 0xA9]"
    by code_simp
  have e'': "sort_by ''relevance''
            (filter (\<lambda>p. ''caf'' @ [CHR 0xC3, CHR 0xA9] = []
                        \<or> sublist (''caf'' @ [CHR 0xC3, CHR 0xA9]) (field_text sample_browser (name p))
                        \<or> sublist (''caf'' @ [CHR 0xC3, CHR 0xA9]) (field_text sample_browser (finish p))
                        \<or> sublist (''caf'' @ [CHR 0xC3, CHR 0xA9]) (field_text sample_browser (slots p))) ?ys)
             = [plate_cafe]"
    by code_simp
  have "set [[CHR 0x20], [CHR 0xC2, CHR 0xA0], [CHR 0xE2, CHR 0x80, CHR 0x83], [CHR 0x09]]
          \<subseteq> set white_space
      \<and> blank_query = concat [[CHR 0x20], [CHR 0xC2, CHR 0xA0], [CHR 0xE2, CHR 0x80, CHR 0x83], [CHR 0x09]]"
    by code_simp
  then have h': "\<exists>ts. set ts \<subseteq> set white_space \<and> search_value ?st' = concat ts"
    unfolding sample_page_simps by blast
  have r': "rendered (applyFilters sample_browser ?st') = ?xs"
    unfolding rendered_applyFilters query_of_eq sample_page_simps by code_simp
  from filter_keeps_matching [where st = ?st and b = sample_browser] h
  have 1: "rendered (applyFilters sample_browser ?st) = [plate_c, plate_a]"
    unfolding sample_page_simps q e by blast
  from filter_keeps_matching [where st = ?st'' and b = sample_browser] h''
  have 2: "rendered (applyFilters sample_browser ?st'') = [plate_cafe]"
    unfolding sample_page_simps q'' e'' by blast
  from filter_keeps_matching [where st = ?st' and b = sample_browser] h'
  have "mset (rendered (applyFilters sample_browser ?st')) = mset ?xs"
    unfolding sample_page_simps by blast
  then show ?thesis using 1 2 f r' by blast
qed

subsection \<open>The price block\<close>

lemma discountPercent_numbers:
  assumes "ToNumber (price p) = Fin cur" and "ToNumber (old_price p) = Fin old"
  shows "discountPercent p
           = Math_round (num_mul (num_div (num_sub (Fin old) (Fin cur)) (Fin old)) (Fin 100))"
  using assms by (simp only: discountPercent_def)

lemma priceContent_truthy:
  assumes "ToBoolean (old_price p)"
  shows "priceContent b p =
           [Elem ''span'' [(''class'', ''old-price'')] [Text (formatINR b (old_price p))],
            Elem ''span'' [(''class'', ''current-price'')] [Text (formatINR b (price p))],
            Elem ''span'' [(''class'', ''discount'')]
              [Text (jsnum_to_string (discountPercent p) @ ''% off'')]]"
  using assms by (simp add: priceContent_def el_def)


lemma card_price_block:
  "node_children (createCard b p) ! 2 = Elem ''div'' [(''class'', ''price'')] (priceContent b p)"
  by (simp add: createCard_def el_def Let_def)

lemma detail_has_discount: "sublist (discountHtml p) (renderProduct b (Some p))"
proof -
  obtain ps ss where "renderProduct b (Some p) = ps @ discountHtml p @ ss"
    unfolding renderProduct_def option.case append_assoc [symmetric]
    by (metis append_assoc)
  then show ?thesis by simp
qed


text \<open>
  The three roundings of the discount expression (of the difference, of the quotient and of
  the product) move the percentage by less than \<open>2\<^sup>-\<^sup>4\<^sup>4\<close>, so the integer \<^verbatim>\<open>Math.round\<close> then
  returns is within \<open>1/2 + 2\<^sup>-\<^sup>4\<^sup>4\<close> of the exact percentage.
\<close>

lemma discount_error:
  assumes da: "is_double a" and db: "is_double b"
    and b0: "0 \<le> b" and ba: "b < a" and top: "a < pow2 1023"
  shows "\<exists>d::int. Math_round (num_mul (num_div (num_sub (Fin a) (Fin b)) (Fin a)) (Fin 100))
                      = Fin (of_int d)
           \<and> 0 \<le> d \<and> d \<le> 100
           \<and> \<bar>of_int d - (a - b) / a * 100\<bar> \<le> 1 / 2 + pow2 (- 44)"
proof -
  define u where "u = pow2 (- 53)"
  define t where "t = pow2 (- 1075)"
  define r where "r = (a - b) / a"
  have u_pos: "0 < u" unfolding u_def by (rule pow2_pos)
  have t_pos: "0 < t" unfolding t_def by (rule pow2_pos)
  have u_val: "u = 1 / 9007199254740992" unfolding u_def by (rule pow2_values)
  have "pow2 (- 1075) \<le> pow2 (- 53 + - 7)" by (rule pow2_mono) simp
  also have "\<dots> = pow2 (- 53) * pow2 (- 7)" by (rule pow2_add)
  finally have t_le: "t \<le> u / 128" unfolding t_def u_def by (simp add: pow2_values)
  have "pow2 8 \<le> pow2 1023" by (rule pow2_mono) simp
  then have big: "256 \<le> pow2 1023" by (simp add: pow2_values)
  have "pow2 (- 44) = pow2 (9 + - 53)" by simp
  also have "\<dots> = pow2 9 * pow2 (- 53)" by (rule pow2_add)
  finally have bound: "pow2 (- 44) = 512 * u" unfolding u_def by (simp add: pow2_values)
  have a_pos: "0 < a" using b0 ba by linarith
  have r_pos: "0 < r" unfolding r_def using a_pos ba by simp
  have r_le: "r \<le> 1" unfolding r_def using a_pos b0 by (simp add: divide_le_eq)
  \<comment> \<open>the subtraction\<close>
  have "\<bar>a - b\<bar> < pow2 1023" using b0 ba top by simp
  from fl_sub_error [OF da db this] obtain c
    where c: "fl (a - b) = Fin c" and ce: "\<bar>c - (a - b)\<bar> \<le> \<bar>a - b\<bar> * pow2 (- 53)"
    by blast
  have ce': "\<bar>c - (a - b)\<bar> \<le> (a - b) * u" using ce ba unfolding u_def by simp
  \<comment> \<open>the division\<close>
  have "\<bar>c / a - r\<bar> = \<bar>c - (a - b)\<bar> / a"
    unfolding r_def using a_pos by (simp add: diff_divide_distrib [symmetric] abs_divide)
  also have "\<dots> \<le> (a - b) * u / a"
    using ce' a_pos by (intro divide_right_mono) simp_all
  also have "\<dots> = r * u" unfolding r_def by simp
  finally have x2e: "\<bar>c / a - r\<bar> \<le> r * u" .
  have ru: "r * u \<le> u" using r_le u_pos by (simp add: mult_left_le_one_le)
  have x2_lo: "0 \<le> c / a"
  proof -
    have "r * u \<le> r" using r_pos u_val by simp
    then show ?thesis using x2e by linarith
  qed
  have x2_hi: "c / a \<le> 1 + u" using x2e ru r_le by linarith
  have u1: "u \<le> 1" using u_val by simp
  have "\<bar>c / a\<bar> = c / a" using x2_lo by (rule abs_of_nonneg)
  moreover have "c / a < pow2 1023" using x2_hi u1 big by linarith
  ultimately have "\<bar>c / a\<bar> < pow2 1023" by (simp only:)
  from fl_error [OF this] obtain d
    where d: "fl (c / a) = Fin d" and de: "\<bar>d - c / a\<bar> \<le> \<bar>c / a\<bar> * pow2 (- 53) + pow2 (- 1075)"
    by blast
  have de': "\<bar>d - c / a\<bar> \<le> c / a * u + t"
    using de unfolding u_def t_def abs_of_nonneg [OF x2_lo] .
  have "c / a * u \<le> (1 + u) * u" using x2_hi u_pos by (intro mult_right_mono) simp_all
  also have "\<dots> = u + u * u" by (simp add: algebra_simps)
  also have "u * u \<le> u / 128" using u_val by simp
  finally have "c / a * u \<le> u + u / 128" by simp
  then have dx: "\<bar>d - c / a\<bar> \<le> u + u / 128 + u / 128"
    using de' t_le by linarith
  have dr: "\<bar>d - r\<bar> \<le> 3 * u" using dx x2e ru u_pos by linarith
  have d_lo: "0 \<le> d" using fl_nonneg [OF x2_lo] d by auto
  have d_hi: "d \<le> 2" using dr r_le u1 u_val by linarith
  \<comment> \<open>the multiplication\<close>
  have "\<bar>d * 100\<bar> = d * 100" using d_lo by (intro abs_of_nonneg) simp
  moreover have "d * 100 < pow2 1023" using d_hi big by linarith
  ultimately have "\<bar>d * 100\<bar> < pow2 1023" by (simp only:)
  from fl_error [OF this] obtain m
    where m: "fl (d * 100) = Fin m"
      and me: "\<bar>m - d * 100\<bar> \<le> \<bar>d * 100\<bar> * pow2 (- 53) + pow2 (- 1075)"
    by blast
  have d100: "0 \<le> d * 100" using d_lo by simp
  have me': "\<bar>m - d * 100\<bar> \<le> d * 100 * u + t"
    using me unfolding u_def t_def abs_of_nonneg [OF d100] .
  have "d * 100 * u \<le> 2 * 100 * u" using d_hi u_pos by (intro mult_right_mono) simp_all
  then have "\<bar>m - d * 100\<bar> \<le> 200 * u + u / 128"
    using me' t_le by linarith
  then have mr: "\<bar>m - r * 100\<bar> \<le> 512 * u" using dr u_pos by linarith
  have m_lo: "0 \<le> m" using fl_nonneg [OF d100] m by auto
  \<comment> \<open>the rounding\<close>
  define k where "k = \<lfloor>m + 1 / 2\<rfloor>"
  have k1: "of_int k \<le> m + 1 / 2" and k2: "m + 1 / 2 < of_int k + 1"
    unfolding k_def by linarith+
  have val: "Math_round (num_mul (num_div (num_sub (Fin a) (Fin b)) (Fin a)) (Fin 100))
               = Fin (of_int k)"
    using a_pos by (simp add: c d m k_def)
  have k_lo: "0 \<le> k" unfolding k_def using m_lo by simp
  have "m + 1 / 2 < 101" using mr r_le u_val by linarith
  then have "k < 101" unfolding k_def by (simp add: floor_less_iff)
  then have k_hi: "k \<le> 100" by simp
  have "\<bar>of_int k - r * 100\<bar> \<le> 1 / 2 + 512 * u" using k1 k2 mr by linarith
  then have "\<bar>of_int k - (a - b) / a * 100\<bar> \<le> 1 / 2 + pow2 (- 44)"
    unfolding r_def bound .
  then show ?thesis using val k_lo k_hi by blast
qed

text \<open>
  An integer within \<open>1/2 + e\<close> of \<open>x\<close> is \<open>x\<close> rounded, unless the fraction of \<open>x\<close> is within
  \<open>e\<close> of one half.
\<close>

lemma near_round:
  fixes x :: rat and d :: int
  assumes "\<bar>of_int d - x\<bar> \<le> 1 / 2 + e" and "e < 1 / 2" and "e < \<bar>frac x - 1 / 2\<bar>"
  shows "d = round x"
proof -
  define n where "n = \<lfloor>x\<rfloor>"
  define f where "f = frac x"
  have x: "x = of_int n + f" unfolding n_def f_def frac_def by simp
  have f0: "0 \<le> f" and f1: "f < 1" unfolding f_def by (simp_all add: frac_lt_1)
  have r: "round x = \<lfloor>of_int n + f + 1 / 2\<rfloor>" unfolding round_def x ..
  have a: "\<bar>of_int d - (of_int n + f)\<bar> \<le> 1 / 2 + e" using assms(1) unfolding x .
  have c: "e < \<bar>f - 1 / 2\<bar>" using assms(3) unfolding f_def .
  show ?thesis
  proof (cases "f < 1 / 2")
    case True
    then have "f < 1 / 2 - e" using c by linarith
    then have "(of_int d :: rat) < of_int n + 1" and "(of_int n :: rat) - 1 < of_int d"
      using a f0 assms(2) by linarith+
    then have "d < n + 1" and "n - 1 < d" by linarith+
    then have "d = n" by linarith
    moreover have "round x = n" unfolding r using True f0 by (simp add: floor_unique)
    ultimately show ?thesis by simp
  next
    case False
    then have "1 / 2 + e < f" using c by linarith
    then have "(of_int n :: rat) < of_int d" and "(of_int d :: rat) < of_int n + 2"
      using a f1 assms(2) by linarith+
    then have "n < d" and "d < n + 2" by linarith+
    then have "d = n + 1" by linarith
    moreover have "round x = n + 1" unfolding r using False f1 by (intro floor_unique) simp_all
    ultimately show ?thesis by simp
  qed
qed

lemma discount_round:
  assumes "is_double a" and "is_double b" and "0 \<le> b" and "b < a" and "a < pow2 1023"
    and "pow2 (- 44) < \<bar>frac ((a - b) / a * 100) - 1 / 2\<bar>"
  shows "Math_round (num_mul (num_div (num_sub (Fin a) (Fin b)) (Fin a)) (Fin 100))
           = Fin (of_int (round ((a - b) / a * 100)))"
proof -
  obtain d :: int
    where v: "Math_round (num_mul (num_div (num_sub (Fin a) (Fin b)) (Fin a)) (Fin 100))
                = Fin (of_int d)"
      and e: "\<bar>of_int d - (a - b) / a * 100\<bar> \<le> 1 / 2 + pow2 (- 44)"
    using discount_error [OF assms(1-5)] by blast
  have "pow2 (- 44) \<le> pow2 (- 2)" by (rule pow2_mono) simp
  also have "pow2 (- 2) < 1 / 2" by (simp add: pow2_eq power_int_minus)
  finally have "pow2 (- 44) < 1 / 2" .
  from near_round [OF e this assms(6)] show ?thesis using v by simp
qed


text \<open>
  Claim C7, as amended. For every record whose price and old price are numbers (after \<^verbatim>\<open>Number\<close>), the old
  price present (the renderers test \<^verbatim>\<open>if (p.old_price)\<close>) and greater than the price, both
  renderers show \<^verbatim>\<open>Math.round(((old_price - price) / old_price) * 100)\<close>, computed in doubles:
  it is the text of the third element of the card's price block and of the discount element
  of the detail markup. For a price that is not negative and an old price below \<open>2\<^sup>1\<^sup>0\<^sup>2\<^sup>3\<close> it is
  an integer from 0 to 100 within \<open>1/2 + 2\<^sup>-\<^sup>4\<^sup>4\<close> of the exact percentage
  \<open>(old - price) / old \<times> 100\<close>, and it is that percentage rounded (a half going up) unless the
  fraction of the percentage is within \<open>2\<^sup>-\<^sup>4\<^sup>4\<close> of one half. For price 800 and old price 1000
  it is 20 (the witness).
\<close>

theorem discount_percentage:
  assumes "ToNumber (price p) = Fin cur" and "ToNumber (old_price p) = Fin old"
    and "ToBoolean (old_price p)" and "cur < old"
  shows "discountPercent p
           = Math_round (num_mul (num_div (num_sub (Fin old) (Fin cur)) (Fin old)) (Fin 100))
       \<and> (0 \<le> cur \<and> old < pow2 1023 \<longrightarrow>
            (\<exists>d::int. discountPercent p = Fin (of_int d) \<and> 0 \<le> d \<and> d \<le> 100
               \<and> \<bar>of_int d - (old - cur) / old * 100\<bar> \<le> 1 / 2 + pow2 (- 44)))
       \<and> (0 \<le> cur \<and> old < pow2 1023
            \<and> pow2 (- 44) < \<bar>frac ((old - cur) / old * 100) - 1 / 2\<bar> \<longrightarrow>
            discountPercent p = Fin (of_int (round ((old - cur) / old * 100))))
       \<and> priceContent b p ! 2
           = Elem ''span'' [(''class'', ''discount'')]
               [Text (jsnum_to_string (discountPercent p) @ ''% off'')]
       \<and> node_children (createCard b p) ! 2
           = Elem ''div'' [(''class'', ''price'')] (priceContent b p)
       \<and> discountHtml p
           = ''<span class=\"discount\">'' @ jsnum_to_string (discountPercent p) @ ''% off</span>''
       \<and> sublist (discountHtml p) (renderProduct b (Some p))"
proof -
  have d: "discountPercent p
             = Math_round (num_mul (num_div (num_sub (Fin old) (Fin cur)) (Fin old)) (Fin 100))"
    using assms(1,2) by (rule discountPercent_numbers)
  have dc: "is_double cur" using assms(1) by (rule ToNumber_double)
  have dold: "is_double old" using assms(2) by (rule ToNumber_double)
  have e: "0 \<le> cur \<and> old < pow2 1023 \<longrightarrow>
            (\<exists>d::int. discountPercent p = Fin (of_int d) \<and> 0 \<le> d \<and> d \<le> 100
               \<and> \<bar>of_int d - (old - cur) / old * 100\<bar> \<le> 1 / 2 + pow2 (- 44))"
    unfolding d using discount_error [OF dold dc _ assms(4)] by blast
  have r: "0 \<le> cur \<and> old < pow2 1023
            \<and> pow2 (- 44) < \<bar>frac ((old - cur) / old * 100) - 1 / 2\<bar> \<longrightarrow>
            discountPercent p = Fin (of_int (round ((old - cur) / old * 100)))"
    unfolding d using discount_round [OF dold dc _ assms(4)] by blast
  have c: "priceContent b p ! 2
           = Elem ''span'' [(''class'', ''discount'')]
               [Text (jsnum_to_string (discountPercent p) @ ''% off'')]"
    unfolding priceContent_truthy [OF assms(3)]
    by (simp only: nth_Cons_numeral nth_Cons_Suc nth_Cons_0 numeral_2_eq_2)
  have h: "discountHtml p
           = ''<span class=\"discount\">'' @ jsnum_to_string (discountPercent p) @ ''% off</span>''"
    unfolding discountHtml_def using assms(3) by (simp only: if_True)
  show ?thesis
    using d e r c h card_price_block [of b p] detail_has_discount [of p b]
    by blast
qed

theorem discount_percentage_witness:
  "discountPercent plate_b = Fin 20
   \<and> priceContent sample_browser plate_b ! 2
       = Elem ''span'' [(''class'', ''discount'')] [Text ''20% off'']
   \<and> discountHtml plate_b = ''<span class=\"discount\">20% off</span>''"
proof -
  have h1: "ToNumber (price plate_b) = Fin 800" by code_simp
  have h2: "ToNumber (old_price plate_b) = Fin 1000" by code_simp
  have h3: "ToBoolean (old_price plate_b)" by code_simp
  have h4: "(800::rat) < 1000" by simp
  have h5: "(0::rat) \<le> 800 \<and> 1000 < pow2 1023
            \<and> pow2 (- 44) < \<bar>frac ((1000 - 800) / 1000 * 100 :: rat) - 1 / 2\<bar>"
    by code_simp
  have r: "round ((1000 - 800) / 1000 * 100 :: rat) = 20" by simp
  have s: "jsnum_to_string (Fin 20) = ''20''" by code_simp
  from discount_percentage [OF h1 h2 h3 h4, of sample_browser] h5
  have v: "discountPercent plate_b = Fin (of_int (round ((1000 - 800) / 1000 * 100 :: rat)))"
    and c: "priceContent sample_browser plate_b ! 2
          = Elem ''span'' [(''class'', ''discount'')]
              [Text (jsnum_to_string (discountPercent plate_b) @ ''% off'')]"
    and h: "discountHtml plate_b
          = ''<span class=\"discount\">'' @ jsnum_to_string (discountPercent plate_b)
              @ ''% off</span>''"
    by blast+
  have v': "discountPercent plate_b = Fin 20" using v unfolding r by simp
  show ?thesis using c h unfolding v' s by simp
qed

text \<open>
  Claim C7 as stated, with the percentage rounded from its exact value, fails where the exact
  percentage is at or next to a half. A price of 171 with an old price of 200 is a discount of
  exactly 14.5 percent: the product computed in doubles is \<^verbatim>\<open>14.499999999999998\<close> and both
  renderers show 14, not 15. A price of \<^verbatim>\<open>75.00000000000001\<close> (the double \<open>75 + 2\<^sup>-\<^sup>4\<^sup>6\<close>) with an old
  price of 1000 is a discount just below 92.5 percent: the quotient computed in doubles is
  \<^verbatim>\<open>0.925\<close> and both renderers show 93, not 92.
\<close>

theorem discount_rounding_counterexample:
  "ToBoolean (old_price plate_tie)
   \<and> ToNumber (price plate_tie) = Fin 171 \<and> ToNumber (old_price plate_tie) = Fin 200
   \<and> discountPercent plate_tie = Fin 14
   \<and> round ((200 - 171) / 200 * 100 :: rat) = 15
   \<and> priceContent sample_browser plate_tie ! 2
       = Elem ''span'' [(''class'', ''discount'')] [Text ''14% off'']
   \<and> discountHtml plate_tie = ''<span class=\"discount\">14% off</span>''
   \<and> ToBoolean (old_price plate_near_tie)
   \<and> ToNumber (price plate_near_tie) = Fin (75 + 1 / 2 ^ 46)
   \<and> ToNumber (old_price plate_near_tie) = Fin 1000
   \<and> discountPercent plate_near_tie = Fin 93
   \<and> round ((1000 - (75 + 1 / 2 ^ 46)) / 1000 * 100 :: rat) = 92
   \<and> round ((1000 - 7500000000000001 / 100000000000000) / 1000 * 100 :: rat) = 92
   \<and> discountHtml plate_near_tie = ''<span class=\"discount\">93% off</span>''"
proof -
  have a: "ToBoolean (old_price plate_tie)" by code_simp
  have b: "ToNumber (price plate_tie) = Fin 171 \<and> ToNumber (old_price plate_tie) = Fin 200"
    by code_simp
  have c: "discountPercent plate_tie = Fin 14" by code_simp
  have d: "round ((200 - 171) / 200 * 100 :: rat) = 15" by (simp add: round_def)
  have s: "jsnum_to_string (Fin 14) = ''14''" by code_simp
  have e: "priceContent sample_browser plate_tie ! 2
       = Elem ''span'' [(''class'', ''discount'')] [Text ''14% off'']"
    unfolding priceContent_truthy [OF a] c s by simp
  have f: "discountHtml plate_tie = ''<span class=\"discount\">14% off</span>''"
    unfolding discountHtml_def c s using a by simp
  have a': "ToBoolean (old_price plate_near_tie)" by code_simp
  have b1: "ToNumber (price plate_near_tie) = Fin (75 + 1 / 2 ^ 46)" by code_simp
  have b2: "ToNumber (old_price plate_near_tie) = Fin 1000" by code_simp
  have c': "discountPercent plate_near_tie = Fin 93" by code_simp
  have d1: "round ((1000 - (75 + 1 / 2 ^ 46)) / 1000 * 100 :: rat) = 92" by code_simp
  have d2: "round ((1000 - 7500000000000001 / 100000000000000) / 1000 * 100 :: rat) = 92"
    by code_simp
  have s': "jsnum_to_string (Fin 93) = ''93''" by code_simp
  have f': "discountHtml plate_near_tie = ''<span class=\"discount\">93% off</span>''"
    unfolding discountHtml_def c' s' using a' by simp
  show ?thesis using a b c d e f a' b1 b2 c' d1 d2 f' by blast
qed



section \<open>Properties of the theme toggle\<close>

lemma toggle_light: "theme_is ''light'' d \<Longrightarrow> theme_is ''dark'' (toggleTheme d)"
  by (simp add: theme_is_def toggleTheme_def setTheme_def or_default_def Let_def)

lemma toggle_dark: "theme_is ''dark'' d \<Longrightarrow> theme_is ''light'' (toggleTheme d)"
  by (simp add: theme_is_def toggleTheme_def setTheme_def or_default_def Let_def)

lemma toggle_writes:
  "stored_theme (toggleTheme d)
     = Some (if or_default (data_theme d) ''light'' = ''dark'' then ''light'' else ''dark'')
   \<and> data_theme (toggleTheme d) = stored_theme (toggleTheme d)"
  by (simp add: toggleTheme_def setTheme_def Let_def)

lemma init_theme:
  "theme_is (or_default (stored_theme d) ''light'') (initTheme d)"
  by (simp add: theme_is_def initTheme_def setTheme_def Let_def)

text \<open>
  Claim C8. Once \<^verbatim>\<open>initTheme\<close> has run, attribute and storage hold the same theme. From a
  state holding \<^verbatim>\<open>light\<close> or \<^verbatim>\<open>dark\<close>, two toggles bring attribute and stored value back to
  what they were. On a page loaded with nothing stored, \<^verbatim>\<open>initTheme\<close> sets \<^verbatim>\<open>light\<close> and one
  toggle then sets \<^verbatim>\<open>dark\<close>. Every toggle writes the new theme to storage: the stored value
  after a toggle is the opposite of the theme the attribute held (an absent or empty
  attribute counting as \<^verbatim>\<open>light\<close>) and equals the new attribute.
\<close>

theorem theme_toggle:
  "(t \<in> {''light'', ''dark''} \<and> theme_is t d \<longrightarrow>
      theme_is t (toggleTheme (toggleTheme d))
      \<and> stored_theme (toggleTheme (toggleTheme d)) = stored_theme d)
   \<and> (stored_theme d = None \<longrightarrow>
      theme_is ''light'' (initTheme d) \<and> theme_is ''dark'' (toggleTheme (initTheme d)))
   \<and> (stored_theme d \<in> {None, Some ''light'', Some ''dark''} \<longrightarrow>
      stored_theme (toggleTheme (toggleTheme (initTheme d))) = stored_theme (initTheme d))
   \<and> stored_theme (toggleTheme d)
       = Some (if or_default (data_theme d) ''light'' = ''dark'' then ''light'' else ''dark'')
   \<and> data_theme (toggleTheme d) = stored_theme (toggleTheme d)"
proof -
  have 1: "t \<in> {''light'', ''dark''} \<and> theme_is t d \<longrightarrow>
      theme_is t (toggleTheme (toggleTheme d))
      \<and> stored_theme (toggleTheme (toggleTheme d)) = stored_theme d"
  proof (intro impI, elim conjE)
    assume t: "t \<in> {''light'', ''dark''}" and d: "theme_is t d"
    have "theme_is t (toggleTheme (toggleTheme d))"
      using t d toggle_light toggle_dark by auto
    then show "theme_is t (toggleTheme (toggleTheme d))
      \<and> stored_theme (toggleTheme (toggleTheme d)) = stored_theme d"
      using d by (simp add: theme_is_def)
  qed
  have 2: "stored_theme d = None \<longrightarrow>
      theme_is ''light'' (initTheme d) \<and> theme_is ''dark'' (toggleTheme (initTheme d))"
  proof
    assume "stored_theme d = None"
    then have "theme_is ''light'' (initTheme d)"
      using init_theme [of d] by (simp add: or_default_def)
    then show "theme_is ''light'' (initTheme d) \<and> theme_is ''dark'' (toggleTheme (initTheme d))"
      by (simp add: toggle_light)
  qed
  have 3: "stored_theme d \<in> {None, Some ''light'', Some ''dark''} \<longrightarrow>
      stored_theme (toggleTheme (toggleTheme (initTheme d))) = stored_theme (initTheme d)"
  proof
    assume s: "stored_theme d \<in> {None, Some ''light'', Some ''dark''}"
    then have "or_default (stored_theme d) ''light'' \<in> {''light'', ''dark''}"
      by (auto simp: or_default_def)
    then show "stored_theme (toggleTheme (toggleTheme (initTheme d))) = stored_theme (initTheme d)"
      using 1 init_theme [of d] toggle_light toggle_dark
      by (auto simp: theme_is_def)
  qed
  show ?thesis using 1 2 3 toggle_writes [of d] by blast
qed

theorem theme_toggle_witness:
  "stored_theme (initTheme \<lparr>data_theme = None, stored_theme = None, toggle_text = [],
                            toggle_installed = False\<rparr>) = Some ''light''
   \<and> stored_theme (toggleTheme (initTheme \<lparr>data_theme = None, stored_theme = None,
                            toggle_text = [], toggle_installed = False\<rparr>)) = Some ''dark''
   \<and> stored_theme (toggleTheme (toggleTheme (initTheme \<lparr>data_theme = None, stored_theme = None,
                            toggle_text = [], toggle_installed = False\<rparr>))) = Some ''light''
   \<and> toggle_text (toggleTheme (initTheme \<lparr>data_theme = None, stored_theme = None,
                            toggle_text = [], toggle_installed = False\<rparr>)) = sun_icon"
proof -
  let ?d = "\<lparr>data_theme = None, stored_theme = None, toggle_text = [], toggle_installed = False\<rparr>"
  have h: "stored_theme ?d = None" by simp
  have h': "stored_theme ?d \<in> {None, Some ''light'', Some ''dark''}" by simp
  have i: "theme_is ''light'' (initTheme ?d) \<and> theme_is ''dark'' (toggleTheme (initTheme ?d))"
    using theme_toggle [of "''light''" ?d] h by blast
  have j: "stored_theme (toggleTheme (toggleTheme (initTheme ?d))) = stored_theme (initTheme ?d)"
    using theme_toggle [of "''light''" ?d] h' by blast
  have k: "toggle_text (toggleTheme (initTheme ?d)) = sun_icon"
    by (simp add: toggleTheme_def initTheme_def setTheme_def or_default_def Let_def)
  show ?thesis using i j k by (simp add: theme_is_def)
qed

section \<open>Properties of the detail page\<close>

subsection \<open>Lookup\<close>

lemma lookup_first:
  "(lookup list ident = Some p)
     = (\<exists>i<length list. list ! i = p \<and> ToString (pid p) = ToString ident
          \<and> (\<forall>j<i. ToString (pid (list ! j)) \<noteq> ToString ident))"
  unfolding lookup_def find_Some_iff by metis

lemma lookup_none:
  "(lookup list ident = None) = (\<forall>x \<in> set list. ToString (pid x) \<noteq> ToString ident)"
  by (auto simp: lookup_def find_None_iff)

lemma loadAndRender_missing:
  assumes "getParam b ''id'' = None \<or> getParam b ''id'' = Some []"
  shows "loadAndRender b r = renderNotFound"
  using assms by (auto simp: loadAndRender_def)

lemma loadAndRender_found:
  assumes "getParam b ''id'' = Some rid" and "rid \<noteq> []"
    and "safeFetch FETCH_TIMEOUT r = Inr (True, status, ArrayOf list)"
  shows "loadAndRender b r = renderProduct b (lookup list (JStr rid))"
  using assms by (simp add: loadAndRender_def)

text \<open>
  Claim C2. The detail lookup returns the first record, in list order, whose id coerced to a
  string equals the requested id coerced to a string, and nothing when no record's coerced
  id matches, in particular on the empty list; a numeric id 3 is found by the URL parameter
  \<^verbatim>\<open>3\<close> (the witness). The page renders what the lookup returns for the id parameter of
  the URL, and the not-found view when the parameter is missing (or empty) or the lookup
  returns nothing.
\<close>

theorem detail_lookup:
  "((lookup list ident = Some p)
      = (\<exists>i<length list. list ! i = p \<and> ToString (pid p) = ToString ident
           \<and> (\<forall>j<i. ToString (pid (list ! j)) \<noteq> ToString ident)))
   \<and> ((lookup list ident = None) = (\<forall>x \<in> set list. ToString (pid x) \<noteq> ToString ident))
   \<and> lookup [] ident = None
   \<and> (getParam b ''id'' = Some rid \<and> rid \<noteq> []
        \<and> safeFetch FETCH_TIMEOUT r = Inr (True, status, ArrayOf list) \<longrightarrow>
        loadAndRender b r = renderProduct b (lookup list (JStr rid)))
   \<and> (getParam b ''id'' = None \<or> getParam b ''id'' = Some [] \<longrightarrow>
        loadAndRender b r = renderNotFound)
   \<and> renderProduct b None = renderNotFound"
proof -
  have "lookup [] ident = None"
    by (simp add: lookup_def)
  moreover have "renderProduct b None = renderNotFound"
    by (simp add: renderProduct_def)
  ultimately show ?thesis
    using lookup_first [of list ident p] lookup_none [of list ident]
      loadAndRender_missing [of b r] loadAndRender_found [of b rid r status list]
    by blast
qed

theorem detail_lookup_witness:
  "lookup [plate_a, plate_b, plate_c, item (JNum 3) ''Late Plate'' (JNum 1) JNull JNull JNull]
      (JStr ''3'') = Some plate_c
   \<and> lookup [plate_a, item (JNum 3) ''Late Plate'' (JNum 1) JNull JNull JNull] (JStr ''3'')
       = Some (item (JNum 3) ''Late Plate'' (JNum 1) JNull JNull JNull)
   \<and> lookup [plate_a, plate_b] (JStr ''3'') = None
   \<and> loadAndRender sample_browser (Responds 120 True 200 (ArrayOf [plate_a, plate_b]))
       = renderNotFound
   \<and> loadAndRender (sample_browser\<lparr>search_params := []\<rparr>)
        (Responds 120 True 200 (ArrayOf [plate_a, plate_b, plate_c])) = renderNotFound"
proof -
  let ?late = "item (JNum 3) ''Late Plate'' (JNum 1) JNull JNull JNull"
  have 1: "lookup [plate_a, plate_b, plate_c, ?late] (JStr ''3'') = Some plate_c"
    by code_simp
  have 2: "lookup [plate_a, ?late] (JStr ''3'') = Some ?late"
    by code_simp
  have 3: "lookup [plate_a, plate_b] (JStr ''3'') = None"
    by code_simp
  have p: "getParam sample_browser ''id'' = Some ''3''"
    by (simp add: getParam_def sample_browser_def)
  have n: "''3'' \<noteq> ([]::string)" by simp
  have f: "safeFetch FETCH_TIMEOUT (Responds 120 True 200 (ArrayOf [plate_a, plate_b]))
             = Inr (True, 200, ArrayOf [plate_a, plate_b])"
    by (simp add: safeFetch_def FETCH_TIMEOUT_def)
  have m: "getParam (sample_browser\<lparr>search_params := []\<rparr>) ''id'' = None"
    by (simp add: getParam_def)
  from detail_lookup [where list = "[plate_a, plate_b]" and b = sample_browser and rid = "''3''"
      and r = "Responds 120 True 200 (ArrayOf [plate_a, plate_b])" and status = 200] p n f
  have 4: "loadAndRender sample_browser (Responds 120 True 200 (ArrayOf [plate_a, plate_b]))
             = renderNotFound"
    unfolding 3 by simp
  from detail_lookup [where b = "sample_browser\<lparr>search_params := []\<rparr>"
      and r = "Responds 120 True 200 (ArrayOf [plate_a, plate_b, plate_c])"] m
  have 5: "loadAndRender (sample_browser\<lparr>search_params := []\<rparr>)
        (Responds 120 True 200 (ArrayOf [plate_a, plate_b, plate_c])) = renderNotFound"
    by blast
  show ?thesis using 1 2 3 4 5 by blast
qed

subsection \<open>Escaping\<close>

lemma set_replace_all: "set (replace_all c r s) \<subseteq> (set s - {c}) \<union> set r"
  by (induction s) (auto simp: replace_all_def)

lemma escapeHtml_safe:
  \<open>set (escapeHtml v) \<inter> {CHR ''<'', CHR ''>'', CHR ''"'', CHR 0x27} = {}\<close>
proof (cases "v = JNull \<or> v = JUndefined")
  case True
  then show ?thesis by (auto simp: escapeHtml_def)
next
  case False
  let ?s1 = \<open>replace_all (CHR ''&'') ''&amp;'' (ToString v)\<close>
  let ?s2 = \<open>replace_all (CHR ''<'') ''&lt;'' ?s1\<close>
  let ?s3 = \<open>replace_all (CHR ''>'') ''&gt;'' ?s2\<close>
  let ?s4 = \<open>replace_all (CHR ''"'') ''&quot;'' ?s3\<close>
  let ?s5 = \<open>replace_all (CHR 0x27) ''&#39;'' ?s4\<close>
  have 2: \<open>CHR ''<'' \<notin> set ?s2\<close>
    using set_replace_all [of \<open>CHR ''<''\<close> \<open>''&lt;''\<close> ?s1] by auto
  have 3: \<open>CHR ''<'' \<notin> set ?s3 \<and> CHR ''>'' \<notin> set ?s3\<close>
    using 2 set_replace_all [of \<open>CHR ''>''\<close> \<open>''&gt;''\<close> ?s2] by auto
  have 4: \<open>CHR ''<'' \<notin> set ?s4 \<and> CHR ''>'' \<notin> set ?s4 \<and> CHR ''"'' \<notin> set ?s4\<close>
    using 3 set_replace_all [of \<open>CHR ''"''\<close> \<open>''&quot;''\<close> ?s3] by auto
  have 5: \<open>CHR ''<'' \<notin> set ?s5 \<and> CHR ''>'' \<notin> set ?s5 \<and> CHR ''"'' \<notin> set ?s5
           \<and> CHR 0x27 \<notin> set ?s5\<close>
    using 4 set_replace_all [of \<open>CHR 0x27\<close> \<open>''&#39;''\<close> ?s4] by auto
  have \<open>escapeHtml v = ?s5\<close>
    using False by (simp add: escapeHtml_def)
  then show ?thesis using 5 by auto
qed

lemma detail_has_main_image: "sublist (mainImg p) (renderProduct b (Some p))"
proof -
  obtain ps ss where "imageGalleryHtml p = ps @ mainImg p @ ss"
    unfolding imageGalleryHtml_def append_assoc [symmetric] by (metis append_assoc)
  moreover obtain ps' ss' where "renderProduct b (Some p) = ps' @ imageGalleryHtml p @ ss'"
    unfolding renderProduct_def option.case append_assoc [symmetric] by (metis append_assoc)
  ultimately have "renderProduct b (Some p) = (ps' @ ps) @ mainImg p @ (ss @ ss')"
    by simp
  then show ?thesis by (metis sublist_appendI)
qed

lemma detail_has_email_link: "sublist (makeEmailLink_detail b p) (renderProduct b (Some p))"
proof -
  obtain ps ss where "renderProduct b (Some p) = ps @ makeEmailLink_detail b p @ ss"
    unfolding renderProduct_def option.case append_assoc [symmetric] by (metis append_assoc)
  then show ?thesis by simp
qed

lemma card_specs_raw:
  \<open>node_children (createCard b p) ! 3
     = Elem ''div'' [(''class'', ''specs'')]
         [Html (''<div class="small">Slots: '' @ ToString (slots p) @ '' '' @ bullet @
                '' Finish: '' @ ToString (finish p) @ ''</div><div class="small">'' @
                ToString (description p) @ ''</div>'')]\<close>
  by (simp add: createCard_def el_def Let_def)

text \<open>
  Claim C3 does not hold of the code. \<^verbatim>\<open>renderProduct\<close> escapes name, slots, finish,
  description, specifications and the Amazon link (\<open>escapeHtml_safe\<close>: what it returns has
  none of the characters \<^verbatim>\<open>< > " '\<close>), but it writes the image URLs into the \<^verbatim>\<open>src\<close>
  attributes as they are, and the email link carries the name as it is. For a record
  whose image is \<^verbatim>\<open>x" onerror="alert(1)\<close> the markup assigned to \<^verbatim>\<open>innerHTML\<close> holds an \<^verbatim>\<open>img\<close>
  element with an \<^verbatim>\<open>onerror\<close> attribute taken from the JSON; escaped, the value would have
  been \<^verbatim>\<open>x&quot; onerror=&quot;alert(1)\<close>. (The card of the list page escapes nothing:
  \<open>card_specs_raw\<close>.)
\<close>

theorem image_url_injected:
  \<open>mainImg plate_hostile
     = ''<img id="main-img" src="x" onerror="alert(1)" alt="Plate &quot;Pro&quot;" loading="lazy" onerror="this.src='images/placeholder.png'">''
   \<and> sublist (mainImg plate_hostile) (renderProduct sample_browser (Some plate_hostile))
   \<and> escapeHtml (image_url plate_hostile) = ''x&quot; onerror=&quot;alert(1)''
   \<and> makeEmailLink_detail sample_browser plate_hostile
     = ''mailto:urvish.entp@gmail.com?subject=Enquiry%3A%20Plate%20%22Pro%22&body=Hi,%0D%0A%0D%0AI would like more information about Plate "Pro" (ID: 5).%0D%0A%0D%0AProduct Link: https://shop.example/product.html?id=3%0D%0A%0D%0AThanks.''
   \<and> sublist (makeEmailLink_detail sample_browser plate_hostile)
       (renderProduct sample_browser (Some plate_hostile))\<close>
proof -
  have 1: \<open>mainImg plate_hostile
     = ''<img id="main-img" src="x" onerror="alert(1)" alt="Plate &quot;Pro&quot;" loading="lazy" onerror="this.src='images/placeholder.png'">''\<close>
    by code_simp
  have 2: \<open>escapeHtml (image_url plate_hostile) = ''x&quot; onerror=&quot;alert(1)''\<close>
    by code_simp
  have 3: \<open>makeEmailLink_detail sample_browser plate_hostile
     = ''mailto:urvish.entp@gmail.com?subject=Enquiry%3A%20Plate%20%22Pro%22&body=Hi,%0D%0A%0D%0AI would like more information about Plate "Pro" (ID: 5).%0D%0A%0D%0AProduct Link: https://shop.example/product.html?id=3%0D%0A%0D%0AThanks.''\<close>
    by code_simp
  show ?thesis
    using 1 2 3 detail_has_main_image [of plate_hostile sample_browser]
      detail_has_email_link [of sample_browser plate_hostile]
    by blast
qed

section \<open>Properties of the loader\<close>

lemma fails_thrown: "fails r \<Longrightarrow> try_load r = Inl (thrown r)"
  by (auto simp: fails_def thrown_def split: sum.splits)

lemma attempts_done:
  assumes "retries < attempt"
  shows "attempts b net retries attempt st = st"
  using assms by (subst attempts.simps) simp

lemma attempts_fail_step:
  assumes "attempt \<le> retries" and "fails (net attempt)"
  shows "attempts b net retries attempt st =
           attempts b net retries (Suc attempt)
             (if attempt = retries
              then st\<lparr>events := events st @ failed_attempt net retries attempt,
                      msg_text := loadFailedText, msg_aria_hidden := ''false'',
                      container := [Html unableHtml]\<rparr>
              else st\<lparr>events := events st @ failed_attempt net retries attempt\<rparr>)"
  using assms
  by (subst attempts.simps) (simp add: fails_thrown failed_attempt_def Let_def)

lemma attempts_success_step:
  assumes "attempt \<le> retries" and "try_load (net attempt) = Inr json"
  shows "attempts b net retries attempt st =
           renderList b (fresh st)
             (st\<lparr>events := events st @ [Fetch PRODUCTS_URL FETCH_TIMEOUT],
                 store := (store st)(fresh st := json), fresh := Suc (fresh st),
                 products := fresh st, msg_text := '''', msg_aria_hidden := ''true''\<rparr>)"
  using assms
  by (subst attempts.simps) (simp add: alloc_def Let_def)

lemma attempts_all_fail:
  assumes "attempt \<le> retries" and "\<forall>i. attempt \<le> i \<and> i \<le> retries \<longrightarrow> fails (net i)"
  shows "attempts b net retries attempt st =
           st\<lparr>events := events st @ concat (map (failed_attempt net retries) [attempt..<Suc retries]),
              msg_text := loadFailedText, msg_aria_hidden := ''false'',
              container := [Html unableHtml]\<rparr>"
  using assms
proof (induction "retries - attempt" arbitrary: attempt st)
  case 0
  then have eq: "attempt = retries" by simp
  have f: "fails (net attempt)" using 0 by simp
  show ?case
    unfolding attempts_fail_step [where net = net, OF "0.prems"(1) f]
    using eq by (simp add: attempts_done)
next
  case (Suc n)
  then have lt: "attempt < retries" by simp
  have f: "fails (net attempt)" using Suc.prems by simp
  have ih: "attempts b net retries (Suc attempt) st' =
           st'\<lparr>events := events st' @ concat (map (failed_attempt net retries) [Suc attempt..<Suc retries]),
              msg_text := loadFailedText, msg_aria_hidden := ''false'',
              container := [Html unableHtml]\<rparr>" for st'
    using Suc.hyps(1) [of "Suc attempt" st'] Suc.hyps(2) Suc.prems lt by simp
  have up: "[attempt..<Suc retries] = attempt # [Suc attempt..<Suc retries]"
    using lt by (simp add: upt_conv_Cons)
  show ?case
    unfolding attempts_fail_step [where net = net, OF Suc.prems(1) f] ih up
    using lt by simp
qed

lemma attempts_success_at:
  assumes "attempt \<le> k" and "k \<le> retries"
    and "\<forall>i. attempt \<le> i \<and> i < k \<longrightarrow> fails (net i)"
    and "try_load (net k) = Inr json"
  shows "attempts b net retries attempt st =
           renderList b (fresh st)
             (st\<lparr>events := events st @ concat (map (failed_attempt net retries) [attempt..<k])
                           @ [Fetch PRODUCTS_URL FETCH_TIMEOUT],
                 store := (store st)(fresh st := json), fresh := Suc (fresh st),
                 products := fresh st, msg_text := '''', msg_aria_hidden := ''true''\<rparr>)"
  using assms
proof (induction "k - attempt" arbitrary: attempt st)
  case 0
  then have eq: "attempt = k" by simp
  have le: "attempt \<le> retries" using 0 by simp
  have ok: "try_load (net attempt) = Inr json" using 0 eq by simp
  show ?case
    using attempts_success_step [where net = net, OF le ok, of b st] eq
    by (simp add: fun_upd_def)
next
  case (Suc n)
  then have lt: "attempt < k" by simp
  then have le: "attempt \<le> retries" and ne: "attempt \<noteq> retries" using Suc.prems by simp_all
  have f: "fails (net attempt)" using Suc.prems lt by simp
  have ih: "attempts b net retries (Suc attempt) st' =
           renderList b (fresh st')
             (st'\<lparr>events := events st' @ concat (map (failed_attempt net retries) [Suc attempt..<k])
                           @ [Fetch PRODUCTS_URL FETCH_TIMEOUT],
                 store := (store st')(fresh st' := json), fresh := Suc (fresh st'),
                 products := fresh st', msg_text := '''', msg_aria_hidden := ''true''\<rparr>)" for st'
    using Suc.hyps(1) [of "Suc attempt" st'] Suc.hyps(2) Suc.prems lt by simp
  have up: "[attempt..<k] = attempt # [Suc attempt..<k]"
    using lt by (simp add: upt_conv_Cons)
  show ?case
    unfolding attempts_fail_step [where net = net, OF le f] ih up
    using ne by simp
qed

lemma fails_iff:
  "fails r =
     (case r of
        NoReply \<Rightarrow> True
      | Fails t \<Rightarrow> True
      | Responds t ok status body \<Rightarrow>
          \<not> t < FETCH_TIMEOUT \<or> \<not> ok \<or> body = InvalidJson \<or> body = NotArray)"
  by (auto simp: fails_def try_load_def safeFetch_def split: reply.splits json_body.splits)

text \<open>
  Claim C4. For every retry budget: when every attempt up to the budget fails (no answer
  within the timeout, a failed request, a status that is not ok, a body that is not a JSON
  array), the loader makes \<open>retries + 1\<close> requests, each with the timeout
  \<^verbatim>\<open>FETCH_TIMEOUT\<close> of its own, waits 500 ms after every failed attempt but the last, and only
  then shows the failure message, leaving the record set as it was. When the attempt \<open>k\<close>
  within the budget is the first to succeed, the loader has made \<open>k + 1\<close> requests with a
  delay of 500 ms after each failed one, stores the records, renders them, and leaves an
  empty message. Time is not modelled beyond the trace of requests, warnings and delays.
\<close>

theorem retry_loader:
  "((\<forall>i\<le>retries. fails (net i)) \<longrightarrow>
      msg_text (fetchProductsWithRetry b net retries st) = loadFailedText
      \<and> msg_aria_hidden (fetchProductsWithRetry b net retries st) = ''false''
      \<and> container (fetchProductsWithRetry b net retries st) = [Html unableHtml]
      \<and> events (fetchProductsWithRetry b net retries st)
          = events st @ concat (map (failed_attempt net retries) [0..<Suc retries])
      \<and> products (fetchProductsWithRetry b net retries st) = products st
      \<and> store (fetchProductsWithRetry b net retries st) = store st)
   \<and> (k \<le> retries \<and> (\<forall>i<k. fails (net i)) \<and> try_load (net k) = Inr json \<longrightarrow>
      store (fetchProductsWithRetry b net retries st)
        (products (fetchProductsWithRetry b net retries st)) = json
      \<and> rendered (fetchProductsWithRetry b net retries st) = json
      \<and> msg_text (fetchProductsWithRetry b net retries st) = []
      \<and> msg_aria_hidden (fetchProductsWithRetry b net retries st) = ''true''
      \<and> container (fetchProductsWithRetry b net retries st)
          = (if json = [] then [Html noResultsHtml] else map (createCard b) json)
      \<and> events (fetchProductsWithRetry b net retries st)
          = events st @ concat (map (failed_attempt net retries) [0..<k])
            @ [Fetch PRODUCTS_URL FETCH_TIMEOUT])
   \<and> (i < retries \<longrightarrow>
      failed_attempt net retries i
        = [Fetch PRODUCTS_URL FETCH_TIMEOUT, Warn (i + 1) (thrown (net i)), Delay 500])
   \<and> failed_attempt net retries retries
        = [Fetch PRODUCTS_URL FETCH_TIMEOUT, Warn (retries + 1) (thrown (net retries))]
   \<and> fails r =
       (case r of
          NoReply \<Rightarrow> True
        | Fails t \<Rightarrow> True
        | Responds t ok status body \<Rightarrow>
            \<not> t < FETCH_TIMEOUT \<or> \<not> ok \<or> body = InvalidJson \<or> body = NotArray)"
proof -
  let ?st0 = "st\<lparr>msg_text := ''Loading products...'', msg_aria_hidden := ''false''\<rparr>"
  have 1: "(\<forall>i\<le>retries. fails (net i)) \<longrightarrow>
      msg_text (fetchProductsWithRetry b net retries st) = loadFailedText
      \<and> msg_aria_hidden (fetchProductsWithRetry b net retries st) = ''false''
      \<and> container (fetchProductsWithRetry b net retries st) = [Html unableHtml]
      \<and> events (fetchProductsWithRetry b net retries st)
          = events st @ concat (map (failed_attempt net retries) [0..<Suc retries])
      \<and> products (fetchProductsWithRetry b net retries st) = products st
      \<and> store (fetchProductsWithRetry b net retries st) = store st"
  proof
    assume a: "\<forall>i\<le>retries. fails (net i)"
    have "attempts b net retries 0 ?st0 =
           ?st0\<lparr>events := events ?st0 @ concat (map (failed_attempt net retries) [0..<Suc retries]),
              msg_text := loadFailedText, msg_aria_hidden := ''false'',
              container := [Html unableHtml]\<rparr>"
      by (rule attempts_all_fail) (use a in simp_all)
    then show "msg_text (fetchProductsWithRetry b net retries st) = loadFailedText
      \<and> msg_aria_hidden (fetchProductsWithRetry b net retries st) = ''false''
      \<and> container (fetchProductsWithRetry b net retries st) = [Html unableHtml]
      \<and> events (fetchProductsWithRetry b net retries st)
          = events st @ concat (map (failed_attempt net retries) [0..<Suc retries])
      \<and> products (fetchProductsWithRetry b net retries st) = products st
      \<and> store (fetchProductsWithRetry b net retries st) = store st"
      by (simp add: fetchProductsWithRetry_def)
  qed
  have 2: "k \<le> retries \<and> (\<forall>i<k. fails (net i)) \<and> try_load (net k) = Inr json \<longrightarrow>
      store (fetchProductsWithRetry b net retries st)
        (products (fetchProductsWithRetry b net retries st)) = json
      \<and> rendered (fetchProductsWithRetry b net retries st) = json
      \<and> msg_text (fetchProductsWithRetry b net retries st) = []
      \<and> msg_aria_hidden (fetchProductsWithRetry b net retries st) = ''true''
      \<and> container (fetchProductsWithRetry b net retries st)
          = (if json = [] then [Html noResultsHtml] else map (createCard b) json)
      \<and> events (fetchProductsWithRetry b net retries st)
          = events st @ concat (map (failed_attempt net retries) [0..<k])
            @ [Fetch PRODUCTS_URL FETCH_TIMEOUT]"
  proof (intro impI, elim conjE)
    assume k: "k \<le> retries" and f: "\<forall>i<k. fails (net i)" and ok: "try_load (net k) = Inr json"
    have "attempts b net retries 0 ?st0 =
           renderList b (fresh ?st0)
             (?st0\<lparr>events := events ?st0 @ concat (map (failed_attempt net retries) [0..<k])
                           @ [Fetch PRODUCTS_URL FETCH_TIMEOUT],
                 store := (store ?st0)(fresh ?st0 := json), fresh := Suc (fresh ?st0),
                 products := fresh ?st0, msg_text := [], msg_aria_hidden := ''true''\<rparr>)"
      by (rule attempts_success_at [where k = k]) (use k f ok in simp_all)
    then show "store (fetchProductsWithRetry b net retries st)
        (products (fetchProductsWithRetry b net retries st)) = json
      \<and> rendered (fetchProductsWithRetry b net retries st) = json
      \<and> msg_text (fetchProductsWithRetry b net retries st) = []
      \<and> msg_aria_hidden (fetchProductsWithRetry b net retries st) = ''true''
      \<and> container (fetchProductsWithRetry b net retries st)
          = (if json = [] then [Html noResultsHtml] else map (createCard b) json)
      \<and> events (fetchProductsWithRetry b net retries st)
          = events st @ concat (map (failed_attempt net retries) [0..<k])
            @ [Fetch PRODUCTS_URL FETCH_TIMEOUT]"
      by (simp add: fetchProductsWithRetry_def renderList_def alloc_def rendered_def Let_def)
  qed
  have 3: "i < retries \<longrightarrow>
      failed_attempt net retries i
        = [Fetch PRODUCTS_URL FETCH_TIMEOUT, Warn (i + 1) (thrown (net i)), Delay 500]"
    by (simp add: failed_attempt_def)
  have 4: "failed_attempt net retries retries
        = [Fetch PRODUCTS_URL FETCH_TIMEOUT, Warn (retries + 1) (thrown (net retries))]"
    by (simp add: failed_attempt_def)
  show ?thesis using 1 2 3 4 fails_iff [of r] by blast
qed

theorem retry_loader_witness:
  "msg_text (fetchProductsWithRetry sample_browser slow_then_ok MAX_RETRIES
               (page_with [] [] ''relevance'')) = []
   \<and> rendered (fetchProductsWithRetry sample_browser slow_then_ok MAX_RETRIES
               (page_with [] [] ''relevance'')) = [plate_a, plate_b]
   \<and> events (fetchProductsWithRetry sample_browser slow_then_ok MAX_RETRIES
               (page_with [] [] ''relevance''))
       = [Fetch ''data/products.json'' 8000, Warn 1 Timeout, Delay 500,
          Fetch ''data/products.json'' 8000]
   \<and> msg_text (fetchProductsWithRetry sample_browser always_down MAX_RETRIES
               (page_with [] [] ''relevance'')) = loadFailedText
   \<and> container (fetchProductsWithRetry sample_browser always_down MAX_RETRIES
               (page_with [] [] ''relevance'')) = [Html unableHtml]
   \<and> events (fetchProductsWithRetry sample_browser always_down MAX_RETRIES
               (page_with [] [] ''relevance''))
       = [Fetch ''data/products.json'' 8000, Warn 1 (HttpError 503), Delay 500,
          Fetch ''data/products.json'' 8000, Warn 2 (HttpError 503)]"
proof -
  let ?st = "page_with [] [] ''relevance''"
  have ev: "events ?st = []" by (simp add: page_with_def)
  have f0: "fails (slow_then_ok 0)"
    by (simp add: fails_def try_load_def safeFetch_def slow_then_ok_def)
  have t0: "thrown (slow_then_ok 0) = Timeout"
    by (simp add: thrown_def try_load_def safeFetch_def slow_then_ok_def)
  have ok1: "try_load (slow_then_ok 1) = Inr [plate_a, plate_b]"
    by (simp add: try_load_def safeFetch_def slow_then_ok_def FETCH_TIMEOUT_def)
  have h: "(1::nat) \<le> MAX_RETRIES \<and> (\<forall>i<1. fails (slow_then_ok i))
           \<and> try_load (slow_then_ok 1) = Inr [plate_a, plate_b]"
    using f0 ok1 by (simp add: MAX_RETRIES_def)
  have tr: "concat (map (failed_attempt slow_then_ok MAX_RETRIES) [0..<1])
             = [Fetch ''data/products.json'' 8000, Warn 1 Timeout, Delay 500]"
    by (simp add: failed_attempt_def t0 MAX_RETRIES_def PRODUCTS_URL_def FETCH_TIMEOUT_def)
  from retry_loader [where net = slow_then_ok and retries = MAX_RETRIES and k = 1
      and json = "[plate_a, plate_b]" and b = sample_browser and st = ?st] h
  have a: "msg_text (fetchProductsWithRetry sample_browser slow_then_ok MAX_RETRIES ?st) = []
     \<and> rendered (fetchProductsWithRetry sample_browser slow_then_ok MAX_RETRIES ?st)
         = [plate_a, plate_b]
     \<and> events (fetchProductsWithRetry sample_browser slow_then_ok MAX_RETRIES ?st)
         = [Fetch ''data/products.json'' 8000, Warn 1 Timeout, Delay 500,
            Fetch ''data/products.json'' 8000]"
    unfolding tr ev by (simp add: PRODUCTS_URL_def FETCH_TIMEOUT_def)
  have fd: "\<forall>i\<le>MAX_RETRIES. fails (always_down i)"
    by (simp add: fails_def try_load_def safeFetch_def always_down_def FETCH_TIMEOUT_def)
  have td: "thrown (always_down i) = HttpError 503" for i
    by (simp add: thrown_def try_load_def safeFetch_def always_down_def FETCH_TIMEOUT_def)
  have trd: "concat (map (failed_attempt always_down MAX_RETRIES) [0..<Suc MAX_RETRIES])
             = [Fetch ''data/products.json'' 8000, Warn 1 (HttpError 503), Delay 500,
                Fetch ''data/products.json'' 8000, Warn 2 (HttpError 503)]"
    by (simp add: failed_attempt_def td MAX_RETRIES_def PRODUCTS_URL_def FETCH_TIMEOUT_def
          upt_rec)
  from retry_loader [where net = always_down and retries = MAX_RETRIES
      and b = sample_browser and st = ?st] fd
  have b: "msg_text (fetchProductsWithRetry sample_browser always_down MAX_RETRIES ?st)
             = loadFailedText
     \<and> container (fetchProductsWithRetry sample_browser always_down MAX_RETRIES ?st)
         = [Html unableHtml]
     \<and> events (fetchProductsWithRetry sample_browser always_down MAX_RETRIES ?st)
         = [Fetch ''data/products.json'' 8000, Warn 1 (HttpError 503), Delay 500,
            Fetch ''data/products.json'' 8000, Warn 2 (HttpError 503)]"
    unfolding trd ev by simp
  show ?thesis using a b by blast
qed

end
